theory Spec2Isabelle
  imports Complex_Main "HOL-Library.Log_Nat"
begin

section \<open>Data model\<close>

text \<open>
  Rows of the two relations the stock engine works on, as declared by the interfaces
  \<^verbatim>\<open>Product\<close> and \<^verbatim>\<open>Transaction\<close> of the data context and by the
  SQL schema of the repository. Identifiers (uuid) are natural numbers, timestamps are
  milliseconds since the epoch, quantities and amounts are integers (the columns are
  \<^verbatim>\<open>integer\<close>).
\<close>

type_synonym uuid = nat
type_synonym timestamptz = int

datatype tx_type = TxIn | TxOut

record product =
  p_id :: uuid
  p_user_id :: string
  p_warehouse_id :: "uuid option"
  p_name :: string
  p_brand :: string
  p_variant :: string
  quantity :: int
  p_image_url :: string
  low_stock_threshold :: int
  p_notes :: string
  p_created_at :: timestamptz
  p_updated_at :: timestamptz

record transaction =
  t_id :: uuid
  t_user_id :: string
  t_warehouse_id :: "uuid option"
  product_id :: uuid
  product_name :: string
  t_brand :: string
  ttype :: tx_type
  amount :: int
  t_notes :: string
  t_created_at :: timestamptz

text \<open>The payloads \<^verbatim>\<open>ProductInsert\<close> and \<^verbatim>\<open>TransactionInsert\<close>; an optional
  field of the source is an \<open>option\<close>.\<close>

record ProductInsert =
  pi_name :: string
  pi_brand :: "string option"
  pi_variant :: "string option"
  pi_quantity :: "int option"
  pi_image_url :: "string option"
  pi_low_stock_threshold :: "int option"
  pi_notes :: "string option"
  pi_created_at :: "timestamptz option"

record TransactionInsert =
  ti_product_id :: uuid
  ti_product_name :: string
  ti_brand :: "string option"
  ti_type :: tx_type
  ti_amount :: int
  ti_notes :: "string option"
  ti_created_at :: "timestamptz option"

text \<open>JavaScript's \<^verbatim>\<open>x || d\<close> on an optional string and on an optional number: the
  default is taken when the value is missing, empty or zero.\<close>

definition str_or :: "string option \<Rightarrow> string \<Rightarrow> string" where
  "str_or x d = (case x of None \<Rightarrow> d | Some s \<Rightarrow> if s = [] then d else s)"

definition num_or :: "int option \<Rightarrow> int \<Rightarrow> int" where
  "num_or x d = (case x of None \<Rightarrow> d | Some n \<Rightarrow> if n = 0 then d else n)"

section \<open>The ledger store\<close>

text \<open>
  The remote store holds the tables \<^verbatim>\<open>products\<close> and \<^verbatim>\<open>transactions\<close>. Every request
  of the client is recorded in \<open>db_calls\<close>, in the order issued. A request either does not
  get through (the client library then returns an error object, here the \<open>fault\<close>
  argument) or is evaluated by the database under the constraints of the schema:
  \<^verbatim>\<open>quantity integer default 0 check (quantity >= 0)\<close>,
  \<^verbatim>\<open>amount integer not null check (amount > 0)\<close> and
  \<^verbatim>\<open>product_id uuid references public.products\<close>.
  The foreign key to the warehouses table is not modelled.
\<close>

datatype pg_error = PgError (pg_code: string) (pg_message: string)

definition check_violation :: pg_error where
  "check_violation = PgError ''23514'' ''violates check constraint''"

definition foreign_key_violation :: pg_error where
  "foreign_key_violation = PgError ''23503'' ''violates foreign key constraint''"

datatype store_call =
    InsertProduct int
  | UpdateProductQuantity uuid int
  | InsertTransaction uuid tx_type int
  | DeleteTransaction uuid

record database =
  db_products :: "product list"
  db_transactions :: "transaction list"
  db_next_id :: uuid
  db_calls :: "store_call list"

definition issue :: "store_call \<Rightarrow> database \<Rightarrow> database" where
  "issue c d = d\<lparr>db_calls := db_calls d @ [c]\<rparr>"

text \<open>\<^verbatim>\<open>from('products').insert(row).select().single()\<close>: the database fills in the
  identifier and the timestamps that the payload leaves out.\<close>

definition products_insert ::
  "pg_error option \<Rightarrow> timestamptz \<Rightarrow> product \<Rightarrow> timestamptz option \<Rightarrow> database
     \<Rightarrow> database \<times> (pg_error + product)" where
  "products_insert fault now row created d =
     (let d1 = issue (InsertProduct (quantity row)) d in
      case fault of
        Some e \<Rightarrow> (d1, Inl e)
      | None \<Rightarrow>
          if quantity row < 0 then (d1, Inl check_violation)
          else
            let r = row\<lparr>p_id := db_next_id d,
                        p_created_at := (case created of Some t \<Rightarrow> t | None \<Rightarrow> now),
                        p_updated_at := now\<rparr>
            in (d1\<lparr>db_products := db_products d @ [r], db_next_id := Suc (db_next_id d)\<rparr>,
                Inr r))"

text \<open>\<^verbatim>\<open>from('transactions').insert(row).select().single()\<close>.\<close>

definition transactions_insert ::
  "pg_error option \<Rightarrow> timestamptz \<Rightarrow> transaction \<Rightarrow> timestamptz option \<Rightarrow> database
     \<Rightarrow> database \<times> (pg_error + transaction)" where
  "transactions_insert fault now row created d =
     (let d1 = issue (InsertTransaction (product_id row) (ttype row) (amount row)) d in
      case fault of
        Some e \<Rightarrow> (d1, Inl e)
      | None \<Rightarrow>
          if amount row \<le> 0 then (d1, Inl check_violation)
          else if product_id row \<notin> p_id ` set (db_products d)
            then (d1, Inl foreign_key_violation)
          else
            let r = row\<lparr>t_id := db_next_id d,
                        t_created_at := (case created of Some t \<Rightarrow> t | None \<Rightarrow> now)\<rparr>
            in (d1\<lparr>db_transactions := db_transactions d @ [r],
                    db_next_id := Suc (db_next_id d)\<rparr>,
                Inr r))"

text \<open>\<^verbatim>\<open>from('products').update({ quantity, updated_at }).eq('id', id)\<close>: every row with
  that identifier is rewritten; with no such row the request succeeds and changes
  nothing.\<close>

definition set_quantity :: "uuid \<Rightarrow> int \<Rightarrow> product list \<Rightarrow> product list" where
  "set_quantity pid q ps = map (\<lambda>p. if p_id p = pid then p\<lparr>quantity := q\<rparr> else p) ps"

definition products_update_quantity ::
  "pg_error option \<Rightarrow> timestamptz \<Rightarrow> uuid \<Rightarrow> int \<Rightarrow> database
     \<Rightarrow> database \<times> pg_error option" where
  "products_update_quantity fault now pid q d =
     (let d1 = issue (UpdateProductQuantity pid q) d in
      case fault of
        Some e \<Rightarrow> (d1, Some e)
      | None \<Rightarrow>
          if q < 0 \<and> pid \<in> p_id ` set (db_products d) then (d1, Some check_violation)
          else
            (d1\<lparr>db_products :=
                   map (\<lambda>p. if p_id p = pid then p\<lparr>quantity := q, p_updated_at := now\<rparr> else p)
                     (db_products d)\<rparr>,
             None))"

text \<open>\<^verbatim>\<open>from('transactions').delete().eq('id', id)\<close>.\<close>

definition transactions_delete ::
  "pg_error option \<Rightarrow> uuid \<Rightarrow> database \<Rightarrow> database \<times> pg_error option" where
  "transactions_delete fault tid d =
     (let d1 = issue (DeleteTransaction tid) d in
      case fault of
        Some e \<Rightarrow> (d1, Some e)
      | None \<Rightarrow>
          (d1\<lparr>db_transactions := filter (\<lambda>t. t_id t \<noteq> tid) (db_transactions d)\<rparr>, None))"

text \<open>Reading the store: the quantity of a product row, and the net ledger movement of a
  product, the sum of its \<^verbatim>\<open>in\<close> amounts minus the sum of its \<^verbatim>\<open>out\<close> amounts.\<close>

definition find_product :: "uuid \<Rightarrow> product list \<Rightarrow> product option" where
  "find_product pid ps = find (\<lambda>p. p_id p = pid) ps"

definition quantity_of :: "uuid \<Rightarrow> product list \<Rightarrow> int option" where
  "quantity_of pid ps = map_option quantity (find_product pid ps)"

definition signed_amount :: "transaction \<Rightarrow> int" where
  "signed_amount t = (if ttype t = TxIn then amount t else - amount t)"

definition ledger_of :: "uuid \<Rightarrow> transaction list \<Rightarrow> transaction list" where
  "ledger_of pid ts = filter (\<lambda>t. product_id t = pid) ts"

definition sum_in :: "transaction list \<Rightarrow> int" where
  "sum_in ts = sum_list (map amount (filter (\<lambda>t. ttype t = TxIn) ts))"

definition sum_out :: "transaction list \<Rightarrow> int" where
  "sum_out ts = sum_list (map amount (filter (\<lambda>t. ttype t = TxOut) ts))"

definition ledger_net :: "uuid \<Rightarrow> transaction list \<Rightarrow> int" where
  "ledger_net pid ts = sum_in (ledger_of pid ts) - sum_out (ledger_of pid ts)"

section \<open>Opening stock reconstruction (History page)\<close>

text \<open>\<^verbatim>\<open>openingStockData\<close>: for each product the loop over the transactions accumulates
  \<^verbatim>\<open>stockChange\<close>, and the opening quantity is clamped at zero.\<close>

record opening_row =
  o_id :: uuid
  o_name :: string
  o_brand :: string
  o_variant :: string
  currentQty :: int
  openingQty :: int
  change :: int

definition stockChange :: "timestamptz \<Rightarrow> transaction list \<Rightarrow> product \<Rightarrow> int" where
  "stockChange monthStart ts product =
     fold (\<lambda>t acc.
            if product_id t = p_id product \<and> t_created_at t \<ge> monthStart
            then acc + (if ttype t = TxIn then amount t else - amount t)
            else acc)
       ts 0"

definition openingStockData ::
  "timestamptz \<Rightarrow> product list \<Rightarrow> transaction list \<Rightarrow> opening_row list" where
  "openingStockData monthStart ps ts =
     map (\<lambda>product.
            let sc = stockChange monthStart ts product;
                oq = max 0 (quantity product - sc)
            in \<lparr>o_id = p_id product, o_name = p_name product, o_brand = p_brand product,
                o_variant = p_variant product, currentQty = quantity product,
                openingQty = oq, change = sc\<rparr>)
       ps"

section \<open>Double-precision numbers\<close>

text \<open>
  A JavaScript number is an IEEE 754 binary64 value. A finite double is represented by the
  rational number it denotes, and \<open>round_double\<close> rounds a rational to the nearest
  double, a tie going to the even significand: it is what \<^verbatim>\<open>+\<close>, \<^verbatim>\<open>-\<close>, \<^verbatim>\<open>*\<close> and
  \<^verbatim>\<open>/\<close> do with their exact result. \<open>binade x\<close> is the exponent \<open>e\<close> with
  \<open>2^e \<le> |x| < 2^(e+1)\<close>, found from the bit lengths of numerator and denominator; a
  double of that binade is a multiple of \<open>2^(e-52)\<close>. The exponent is not bounded:
  overflow to \<^verbatim>\<open>Infinity\<close> and subnormal results are not represented, nor are
  \<^verbatim>\<open>NaN\<close> and the sign of zero. The statistics below start from integers of
  magnitude below \<open>2^53\<close> and divide by non-zero numbers only: they meet none of them.
\<close>

definition binade :: "rat \<Rightarrow> int" where
  "binade x =
     (let k = bitlen (fst (quotient_of \<bar>x\<bar>)) - bitlen (snd (quotient_of \<bar>x\<bar>))
      in if 2 powi k \<le> \<bar>x\<bar> then k else k - 1)"

definition round_half_even :: "rat \<Rightarrow> int" where
  "round_half_even r =
     (let f = \<lfloor>r\<rfloor>; d = r - of_int f
      in if d < 1 / 2 then f else if 1 / 2 < d then f + 1 else if even f then f else f + 1)"

definition round_double :: "rat \<Rightarrow> rat" where
  "round_double x =
     (if x = 0 then 0
      else let u = 2 powi (binade x - 52)
           in sgn x * (of_int (round_half_even (\<bar>x\<bar> / u)) * u))"

section \<open>Product performance statistics\<close>

text \<open>
  \<^verbatim>\<open>productStats\<close> of the performance page. Amounts, quantities and timestamps are
  integers (the columns are \<^verbatim>\<open>integer\<close>, a \<^verbatim>\<open>Date\<close> holds whole milliseconds), and so
  are the sums of amounts, which are exact in doubles below \<open>2^53\<close>. The subtractions,
  the divisions and the multiplication of the trend and turnover computations are each
  followed by \<open>round_double\<close>. The calendar functions of \<^verbatim>\<open>Date\<close> (\<^verbatim>\<open>getMonth\<close>,
  \<^verbatim>\<open>getFullYear\<close>, in the local time zone) are parameters; \<open>now\<close> is the
  \<^verbatim>\<open>new Date()\<close> of the computation and \<open>dateNow\<close> the later \<^verbatim>\<open>Date.now()\<close>.
\<close>

datatype trend = Up | Down | Stable

datatype turnover = High | Med | Low

record ProductStat =
  s_id :: uuid
  s_name :: string
  s_brand :: string
  s_variant :: string
  consumed :: int
  inStock :: int
  s_trend :: trend
  trendValue :: int
  turnoverRate :: turnover

text \<open>\<^verbatim>\<open>.reduce((sum, t) => sum + t.amount, 0)\<close>\<close>

definition reduce_amount :: "transaction list \<Rightarrow> int" where
  "reduce_amount ts = foldl (\<lambda>sum t. sum + amount t) 0 ts"

text \<open>\<^verbatim>\<open>Math.round\<close> returns the integer nearest to its argument, the larger one of two
  equally near.\<close>

definition Math_round :: "rat \<Rightarrow> int" where
  "Math_round x = \<lfloor>x + 1 / 2\<rfloor>"

text \<open>\<^verbatim>\<open>((thisMonthOut - lastMonthOut) / lastMonthOut) * 100\<close>\<close>

definition percent_change :: "int \<Rightarrow> int \<Rightarrow> rat" where
  "percent_change thisMonthOut lastMonthOut =
     round_double
       (round_double (round_double (of_int thisMonthOut - of_int lastMonthOut)
                        / of_int lastMonthOut)
        * 100)"

definition compute_trend :: "int \<Rightarrow> int \<Rightarrow> trend \<times> int" where
  "compute_trend thisMonthOut lastMonthOut =
     (if lastMonthOut > 0 then
        let change = percent_change thisMonthOut lastMonthOut;
            tv = \<bar>Math_round change\<bar>
        in if change > 5 then (Up, tv)
           else if change < - 5 then (Down, tv)
           else (Stable, tv)
      else if thisMonthOut > 0 then (Up, 100)
      else (Stable, 0))"

definition actualMonths :: "timestamptz \<Rightarrow> transaction list \<Rightarrow> rat" where
  "actualMonths dateNow outTransactions =
     (if length outTransactions > 0 then
        let earliest = t_created_at (last outTransactions);
            diffMs = round_double (of_int dateNow - of_int earliest)
        in max 1 (round_double (diffMs / (1000 * 60 * 60 * 24 * 30)))
      else 1)"

definition compute_turnover :: "int \<Rightarrow> rat \<Rightarrow> turnover" where
  "compute_turnover qty avgMonthlyConsumption =
     (if qty > 0 then
        let monthsOfStock =
              round_double
                (of_int qty / (if avgMonthlyConsumption = 0 then 1 else avgMonthlyConsumption))
        in if monthsOfStock < 2 then High
           else if monthsOfStock < 6 then Med
           else Low
      else if avgMonthlyConsumption > 10 then High
      else Low)"

definition productStat ::
  "(timestamptz \<Rightarrow> nat) \<Rightarrow> (timestamptz \<Rightarrow> int) \<Rightarrow> timestamptz \<Rightarrow> timestamptz
     \<Rightarrow> transaction list \<Rightarrow> product \<Rightarrow> ProductStat" where
  "productStat getMonth getFullYear now dateNow ts product =
     (let currentMonth = getMonth now;
          currentYear = getFullYear now;
          lastMonth = (if currentMonth = 0 then 11 else currentMonth - 1);
          lastMonthYear = (if currentMonth = 0 then currentYear - 1 else currentYear);
          thisMonthOut = reduce_amount (filter (\<lambda>t.
              product_id t = p_id product \<and> ttype t = TxOut \<and>
              getMonth (t_created_at t) = currentMonth \<and>
              getFullYear (t_created_at t) = currentYear) ts);
          lastMonthOut = reduce_amount (filter (\<lambda>t.
              product_id t = p_id product \<and> ttype t = TxOut \<and>
              getMonth (t_created_at t) = lastMonth \<and>
              getFullYear (t_created_at t) = lastMonthYear) ts);
          outTransactions = filter (\<lambda>t. product_id t = p_id product \<and> ttype t = TxOut) ts;
          totalConsumed = reduce_amount outTransactions;
          tr = compute_trend thisMonthOut lastMonthOut;
          avgMonthlyConsumption =
            round_double (of_int totalConsumed / actualMonths dateNow outTransactions)
      in \<lparr>s_id = p_id product, s_name = p_name product,
          s_brand = p_brand product, s_variant = p_variant product,
          consumed = totalConsumed, inStock = quantity product,
          s_trend = fst tr, trendValue = snd tr,
          turnoverRate = compute_turnover (quantity product) avgMonthlyConsumption\<rparr>)"

definition productStats ::
  "(timestamptz \<Rightarrow> nat) \<Rightarrow> (timestamptz \<Rightarrow> int) \<Rightarrow> timestamptz \<Rightarrow> timestamptz
     \<Rightarrow> product list \<Rightarrow> transaction list \<Rightarrow> ProductStat list" where
  "productStats getMonth getFullYear now dateNow ps ts =
     map (productStat getMonth getFullYear now dateNow ts) ps"

section \<open>Client state (data context)\<close>

text \<open>
  The state of \<^verbatim>\<open>DataProvider\<close>: the signed-in user, whether the client is configured,
  the warehouse scope, the snapshots \<^verbatim>\<open>products\<close>, \<^verbatim>\<open>transactions\<close> and
  \<^verbatim>\<open>allTransactions\<close> held in memory, and the remote store. Console output is not
  modelled. The store client returns failures as error objects; it does not throw.
\<close>

record app =
  user :: "string option"
  configured :: bool
  warehouseEnabled :: bool
  currentWarehouse :: "uuid option"
  products :: "product list"
  transactions :: "transaction list"
  allTransactions :: "transaction list"
  db :: database

text \<open>The messages returned or shown to the user (the source texts are Chinese):
  please sign in; the client is not configured; creation failed; the product exists
  already; the database connection failed; the store's own message; the transaction does
  not exist; restoring the stock failed and the transaction was not deleted; deleting the
  transaction failed and the stock was rolled back.\<close>

datatype message =
    LoginFirst
  | NotConfigured
  | CreateFailed
  | ProductExists
  | ConnectionFailed
  | StoreMessage string
  | TransactionNotFound
  | RestoreFailedNotDeleted
  | DeleteFailedRolledBack

record product_result =
  data :: "product option"
  error :: "message option"

record delete_result =
  success :: bool
  del_error :: "message option"

text \<open>\<^verbatim>\<open>if (warehouseEnabled && currentWarehouse) row.warehouse_id = currentWarehouse.id\<close>\<close>

definition warehouse_scope :: "app \<Rightarrow> uuid option" where
  "warehouse_scope st = (if warehouseEnabled st then currentWarehouse st else None)"

subsection \<open>createProduct\<close>

definition create_error_message :: "pg_error \<Rightarrow> message" where
  "create_error_message e =
     (if pg_code e = ''23505'' then ProductExists
      else if pg_code e = ''PGRST301'' then ConnectionFailed
      else if pg_message e \<noteq> [] then StoreMessage (pg_message e)
      else CreateFailed)"

definition createProduct ::
  "pg_error option \<Rightarrow> pg_error option \<Rightarrow> timestamptz \<Rightarrow> ProductInsert \<Rightarrow> app
     \<Rightarrow> app \<times> product_result" where
  "createProduct faultP faultT now productData st =
     (case user st of
        None \<Rightarrow> (st, \<lparr>data = None, error = Some LoginFirst\<rparr>)
      | Some uid \<Rightarrow>
         (if \<not> configured st then (st, \<lparr>data = None, error = Some NotConfigured\<rparr>)
          else
            let insertData =
                  \<lparr>p_id = 0, p_user_id = uid, p_warehouse_id = warehouse_scope st,
                   p_name = pi_name productData,
                   p_brand = str_or (pi_brand productData) [],
                   p_variant = str_or (pi_variant productData) [],
                   quantity = num_or (pi_quantity productData) 0,
                   p_image_url = str_or (pi_image_url productData) [],
                   low_stock_threshold = num_or (pi_low_stock_threshold productData) 5,
                   p_notes = str_or (pi_notes productData) [],
                   p_created_at = 0, p_updated_at = 0\<rparr>
            in (case products_insert faultP now insertData (pi_created_at productData) (db st) of
                 (d1, Inl e) \<Rightarrow>
                   (st\<lparr>db := d1\<rparr>, \<lparr>data = None, error = Some (create_error_message e)\<rparr>)
               | (d1, Inr newProduct) \<Rightarrow>
                   let st1 = st\<lparr>db := d1, products := products st @ [newProduct]\<rparr>;
                       initialQty = num_or (pi_quantity productData) 0;
                       result = \<lparr>data = Some newProduct, error = None\<rparr>
                   in if initialQty > 0 then
                        let txInsert =
                              \<lparr>t_id = 0, t_user_id = uid, t_warehouse_id = warehouse_scope st,
                               product_id = p_id newProduct,
                               product_name = p_name newProduct,
                               t_brand = p_brand newProduct,
                               ttype = TxIn, amount = initialQty,
                               t_notes = ''initial stock'', t_created_at = 0\<rparr>
                        in (case transactions_insert faultT now txInsert
                                   (pi_created_at productData) (db st1) of
                              (d2, Inr newTx) \<Rightarrow>
                                (st1\<lparr>db := d2,
                                     transactions := newTx # transactions st1,
                                     allTransactions := allTransactions st1 @ [newTx]\<rparr>,
                                 result)
                            | (d2, Inl e) \<Rightarrow> (st1\<lparr>db := d2\<rparr>, result))
                      else (st1, result))))"

subsection \<open>updateProductQuantity and createTransaction\<close>

definition updateProductQuantity ::
  "pg_error option \<Rightarrow> timestamptz \<Rightarrow> uuid \<Rightarrow> int \<Rightarrow> app \<Rightarrow> app \<times> bool" where
  "updateProductQuantity fault now productId newQuantity st =
     (case products_update_quantity fault now productId newQuantity (db st) of
        (d1, Some e) \<Rightarrow> (st\<lparr>db := d1\<rparr>, False)
      | (d1, None) \<Rightarrow>
          (st\<lparr>db := d1, products := set_quantity productId newQuantity (products st)\<rparr>, True))"

definition createTransaction ::
  "pg_error option \<Rightarrow> timestamptz \<Rightarrow> TransactionInsert \<Rightarrow> app
     \<Rightarrow> app \<times> transaction option" where
  "createTransaction fault now transactionData st =
     (case user st of
        None \<Rightarrow> (st, None)
      | Some uid \<Rightarrow>
         (let insertData =
                \<lparr>t_id = 0, t_user_id = uid, t_warehouse_id = warehouse_scope st,
                 product_id = ti_product_id transactionData,
                 product_name = ti_product_name transactionData,
                 t_brand = str_or (ti_brand transactionData) [],
                 ttype = ti_type transactionData,
                 amount = ti_amount transactionData,
                 t_notes = str_or (ti_notes transactionData) [],
                 t_created_at = 0\<rparr>
          in (case transactions_insert fault now insertData
                     (ti_created_at transactionData) (db st) of
                (d1, Inl e) \<Rightarrow> (st\<lparr>db := d1\<rparr>, None)
              | (d1, Inr newTransaction) \<Rightarrow>
                  (st\<lparr>db := d1,
                      transactions := newTransaction # transactions st,
                      allTransactions := allTransactions st @ [newTransaction]\<rparr>,
                   Some newTransaction))))"

subsection \<open>Stock adjustment page\<close>

text \<open>
  \<^verbatim>\<open>handleConfirmAction\<close> of the stock adjustment page. The current stock is
  \<^verbatim>\<open>product.quantity\<close> of the product the page shows, \<open>adjustAmount\<close> is the parsed
  keypad input, \<open>notes\<close> the trimmed note, \<open>customDate\<close> the value of the date field
  read by \<^verbatim>\<open>new Date(customDate)\<close>: \<open>None\<close> when the field holds no valid date, in
  which case \<^verbatim>\<open>toISOString()\<close> throws a RangeError that the handler's
  \<^verbatim>\<open>catch\<close> turns into an alert. The three faults are those of the quantity write,
  the transaction write and the compensating quantity write.
\<close>

datatype operation = Add | Subtract

datatype alert = UpdateStockFailed | TransactionFailedRolledBack | InvalidTimeValue

datatype confirm_outcome = Ignored | Navigated | Alerted alert

definition resolve_product :: "uuid option \<Rightarrow> product option \<Rightarrow> product list \<Rightarrow> product option" where
  "resolve_product productId stateProduct ps =
     (let wanted = (case productId of Some i \<Rightarrow> Some i | None \<Rightarrow> map_option p_id stateProduct) in
      case (case wanted of None \<Rightarrow> None | Some i \<Rightarrow> find_product i ps) of
        Some p \<Rightarrow> Some p
      | None \<Rightarrow> stateProduct)"

definition finalStock :: "operation \<Rightarrow> int \<Rightarrow> int \<Rightarrow> int" where
  "finalStock operation currentStock adjustAmount =
     (if operation = Add then currentStock + adjustAmount
      else max 0 (currentStock - adjustAmount))"

definition actualAmount :: "operation \<Rightarrow> int \<Rightarrow> int \<Rightarrow> int" where
  "actualAmount operation currentStock adjustAmount =
     (if operation = Subtract then min adjustAmount currentStock else adjustAmount)"

text \<open>The object passed to \<^verbatim>\<open>createTransaction\<close>.\<close>

definition adjust_tx ::
  "product \<Rightarrow> operation \<Rightarrow> int \<Rightarrow> string \<Rightarrow> timestamptz \<Rightarrow> TransactionInsert" where
  "adjust_tx product operation adjustAmount notes created =
     \<lparr>ti_product_id = p_id product,
      ti_product_name = p_name product,
      ti_brand = Some (p_brand product),
      ti_type = (if operation = Add then TxIn else TxOut),
      ti_amount = actualAmount operation (quantity product) adjustAmount,
      ti_notes = Some notes,
      ti_created_at = Some created\<rparr>"

definition handleConfirmAction ::
  "pg_error option \<Rightarrow> pg_error option \<Rightarrow> pg_error option \<Rightarrow> timestamptz \<Rightarrow> bool
     \<Rightarrow> product \<Rightarrow> operation \<Rightarrow> int \<Rightarrow> string \<Rightarrow> timestamptz option \<Rightarrow> app
     \<Rightarrow> app \<times> confirm_outcome" where
  "handleConfirmAction faultU faultT faultR now isSubmitting product operation adjustAmount
       notes customDate st =
     (if isSubmitting then (st, Ignored)
      else
        case updateProductQuantity faultU now (p_id product)
               (finalStock operation (quantity product) adjustAmount) st of
          (st1, False) \<Rightarrow> (st1, Alerted UpdateStockFailed)
        | (st1, True) \<Rightarrow>
            (case customDate of
               None \<Rightarrow> (st1, Alerted InvalidTimeValue)
             | Some created \<Rightarrow>
                 (case createTransaction faultT now
                         (adjust_tx product operation adjustAmount notes created) st1 of
                    (st2, Some newTx) \<Rightarrow> (st2, Navigated)
                  | (st2, None) \<Rightarrow>
                      (fst (updateProductQuantity faultR now (p_id product)
                              (quantity product) st2),
                       Alerted TransactionFailedRolledBack))))"

subsection \<open>deleteTransaction\<close>

text \<open>The three faults are those of the compensating quantity write, of the row delete and
  of the quantity write that undoes the compensation.\<close>

definition deleteTransaction ::
  "pg_error option \<Rightarrow> pg_error option \<Rightarrow> pg_error option \<Rightarrow> timestamptz \<Rightarrow> uuid \<Rightarrow> app
     \<Rightarrow> app \<times> delete_result" where
  "deleteTransaction faultU faultD faultR now transactionId st =
     (case user st of
        None \<Rightarrow> (st, \<lparr>success = False, del_error = Some LoginFirst\<rparr>)
      | Some uid \<Rightarrow>
         (case find (\<lambda>t. t_id t = transactionId) (transactions st) of
            None \<Rightarrow> (st, \<lparr>success = False, del_error = Some TransactionNotFound\<rparr>)
          | Some tx \<Rightarrow>
             (let product = find (\<lambda>p. p_id p = product_id tx) (products st);
                  step1 =
                    (case product of
                       None \<Rightarrow> (st, True)
                     | Some p \<Rightarrow>
                         let adjustment = (if ttype tx = TxIn then - amount tx else amount tx);
                             newQuantity = max 0 (quantity p + adjustment)
                         in (case products_update_quantity faultU now (p_id p) newQuantity
                                    (db st) of
                               (d1, Some e) \<Rightarrow> (st\<lparr>db := d1\<rparr>, False)
                             | (d1, None) \<Rightarrow>
                                 (st\<lparr>db := d1,
                                     products :=
                                       set_quantity (p_id p) newQuantity (products st)\<rparr>,
                                  True)))
              in (case step1 of
                   (st1, False) \<Rightarrow>
                     (st1, \<lparr>success = False, del_error = Some RestoreFailedNotDeleted\<rparr>)
                 | (st1, True) \<Rightarrow>
                     (case transactions_delete faultD transactionId (db st1) of
                        (d2, Some e) \<Rightarrow>
                          ((case product of
                              None \<Rightarrow> st1\<lparr>db := d2\<rparr>
                            | Some p \<Rightarrow>
                                st1\<lparr>db := fst (products_update_quantity faultR now (p_id p)
                                                (quantity p) d2),
                                    products := set_quantity (p_id p) (quantity p) (products st1)\<rparr>),
                           \<lparr>success = False, del_error = Some DeleteFailedRolledBack\<rparr>)
                      | (d2, None) \<Rightarrow>
                          (st1\<lparr>db := d2,
                               transactions :=
                                 filter (\<lambda>t. t_id t \<noteq> transactionId) (transactions st1),
                               allTransactions :=
                                 filter (\<lambda>t. t_id t \<noteq> transactionId) (allTransactions st1)\<rparr>,
                           \<lparr>success = True, del_error = None\<rparr>))))))"

section \<open>Sequences of operations\<close>

text \<open>
  A sequence of Create Product and Adjust Stock operations in which every request reaches
  the store: a creation, and an adjustment of the product with a given identifier, looked
  up in the products snapshot as the adjustment page does, with a valid date in the date
  field. \<open>ledger_consistent\<close> is the invariant such sequences maintain: the snapshot
  shows the stored quantities, every stored quantity is the net movement of the
  product's ledger and is not negative, and identifiers in use are below the next one.
\<close>

datatype op =
    CreateProduct timestamptz ProductInsert
  | AdjustStock timestamptz uuid operation int string timestamptz

fun step :: "op \<Rightarrow> app \<Rightarrow> app" where
  "step (CreateProduct now productData) st = fst (createProduct None None now productData st)"
| "step (AdjustStock now productId operation adjustAmount memo customDate) st =
     (case resolve_product (Some productId) None (products st) of
        None \<Rightarrow> st
      | Some product \<Rightarrow>
          fst (handleConfirmAction None None None now False product operation adjustAmount
                 memo (Some customDate) st))"

definition run :: "op list \<Rightarrow> app \<Rightarrow> app" where
  "run ops st = fold step ops st"

definition ledger_consistent :: "app \<Rightarrow> bool" where
  "ledger_consistent st \<longleftrightarrow>
     map (\<lambda>p. (p_id p, quantity p)) (products st)
       = map (\<lambda>p. (p_id p, quantity p)) (db_products (db st))
   \<and> (\<forall>p\<in>set (db_products (db st)).
         quantity p = ledger_net (p_id p) (db_transactions (db st))
       \<and> 0 \<le> quantity p \<and> p_id p < db_next_id (db st))
   \<and> (\<forall>t\<in>set (db_transactions (db st)). product_id t < db_next_id (db st))"

section \<open>The specification's formulas\<close>

text \<open>The formulas of the specification, written after its words, for comparison with
  the functions of the source.\<close>

definition netChange_spec :: "timestamptz \<Rightarrow> transaction list \<Rightarrow> uuid \<Rightarrow> int" where
  "netChange_spec monthStart ts pid =
     sum_in (filter (\<lambda>t. product_id t = pid \<and> monthStart \<le> t_created_at t) ts)
     - sum_out (filter (\<lambda>t. product_id t = pid \<and> monthStart \<le> t_created_at t) ts)"

definition month_out ::
  "(timestamptz \<Rightarrow> nat) \<Rightarrow> (timestamptz \<Rightarrow> int) \<Rightarrow> uuid \<Rightarrow> nat \<Rightarrow> int
     \<Rightarrow> transaction list \<Rightarrow> int" where
  "month_out getMonth getFullYear pid m y ts =
     sum_out (filter (\<lambda>t. product_id t = pid \<and> getMonth (t_created_at t) = m \<and>
                          getFullYear (t_created_at t) = y) ts)"

definition trend_spec :: "int \<Rightarrow> int \<Rightarrow> trend \<times> int" where
  "trend_spec thisMonthOut lastMonthOut =
     (if lastMonthOut = 0 then (if thisMonthOut > 0 then (Up, 100) else (Stable, 0))
      else
        let pct = Math_round
                    (100 * (of_int thisMonthOut - of_int lastMonthOut) / of_int lastMonthOut)
        in (if pct > 5 then Up else if pct < - 5 then Down else Stable, \<bar>pct\<bar>))"

definition actualMonths_spec :: "timestamptz \<Rightarrow> transaction list \<Rightarrow> rat" where
  "actualMonths_spec dateNow outs =
     (if outs = [] then 1
      else max 1 (of_int (dateNow - Min (set (map t_created_at outs))) / 2592000000))"

definition turnover_spec :: "int \<Rightarrow> rat \<Rightarrow> turnover" where
  "turnover_spec qty avgMonthlyConsumption =
     (if qty > 0 then
        let monthsOfStockRemaining = of_int qty / max avgMonthlyConsumption 1
        in if monthsOfStockRemaining < 2 then High
           else if monthsOfStockRemaining < 6 then Med
           else Low
      else if avgMonthlyConsumption > 10 then High
      else Low)"

section \<open>Sample rows and a sample calendar\<close>

text \<open>Rows, and a calendar of 30-day months, on which the functions are evaluated.\<close>

definition mk_product :: "uuid \<Rightarrow> int \<Rightarrow> product" where
  "mk_product i q =
     \<lparr>p_id = i, p_user_id = ''salon'', p_warehouse_id = None, p_name = ''shampoo'',
      p_brand = [], p_variant = [], quantity = q, p_image_url = [],
      low_stock_threshold = 5, p_notes = [], p_created_at = 0, p_updated_at = 0\<rparr>"

definition mk_tx :: "uuid \<Rightarrow> uuid \<Rightarrow> tx_type \<Rightarrow> int \<Rightarrow> timestamptz \<Rightarrow> transaction" where
  "mk_tx i pid ty a created =
     \<lparr>t_id = i, t_user_id = ''salon'', t_warehouse_id = None, product_id = pid,
      product_name = ''shampoo'', t_brand = [], ttype = ty, amount = a, t_notes = [],
      t_created_at = created\<rparr>"

definition demo_getMonth :: "timestamptz \<Rightarrow> nat" where
  "demo_getMonth t = nat (t div 2592000000) mod 12"

definition demo_getFullYear :: "timestamptz \<Rightarrow> int" where
  "demo_getFullYear t = 1970 + t div 31104000000"

definition empty_db :: database where
  "empty_db = \<lparr>db_products = [], db_transactions = [], db_next_id = 0, db_calls = []\<rparr>"

definition init_app :: app where
  "init_app = \<lparr>user = Some ''salon'', configured = True, warehouseEnabled = False,
     currentWarehouse = None, products = [], transactions = [], allTransactions = [],
     db = empty_db\<rparr>"

definition shampoo :: "int \<Rightarrow> ProductInsert" where
  "shampoo q = \<lparr>pi_name = ''shampoo'', pi_brand = None, pi_variant = None,
     pi_quantity = Some q, pi_image_url = None, pi_low_stock_threshold = None,
     pi_notes = None, pi_created_at = None\<rparr>"

definition offline :: pg_error where
  "offline = PgError [] ''Failed to fetch''"

text \<open>The state after creating one product with an initial quantity of 10, and a stock
  adjustment of that product in that state.\<close>

definition stocked :: app where
  "stocked = fst (createProduct None None 0 (shampoo 10) init_app)"

definition demo_adjust ::
  "pg_error option \<Rightarrow> pg_error option \<Rightarrow> pg_error option \<Rightarrow> operation \<Rightarrow> int
     \<Rightarrow> timestamptz option \<Rightarrow> app \<times> confirm_outcome" where
  "demo_adjust faultU faultT faultR operation adjustAmount customDate =
     handleConfirmAction faultU faultT faultR 100 False (mk_product 0 10) operation adjustAmount
       ''used'' customDate stocked"


definition orphaned :: app where
  "orphaned = stocked\<lparr>products := []\<rparr>"

section \<open>Properties of the analytics functions\<close>

subsection \<open>Opening stock\<close>

lemma fold_stockChange:
  "fold (\<lambda>t acc.
            if product_id t = pid \<and> t_created_at t \<ge> monthStart
            then acc + (if ttype t = TxIn then amount t else - amount t)
            else acc) ts a = a + netChange_spec monthStart ts pid"
proof (induction ts arbitrary: a)
  case Nil
  then show ?case by (simp add: netChange_spec_def sum_in_def sum_out_def)
next
  case (Cons t ts)
  then show ?case
    by (cases "ttype t") (auto simp add: netChange_spec_def sum_in_def sum_out_def)
qed

lemma stockChange_eq: "stockChange monthStart ts p = netChange_spec monthStart ts (p_id p)"
  unfolding stockChange_def by (simp add: fold_stockChange)

lemma netChange_spec_none:
  "\<forall>t\<in>set ts. product_id t = pid \<longrightarrow> t_created_at t < monthStart
     \<Longrightarrow> netChange_spec monthStart ts pid = 0"
  by (induction ts) (auto simp: netChange_spec_def sum_in_def sum_out_def)

text \<open>
  Claim C8. For every product the reconstructed opening stock of a month is
  \<open>max 0 (currentQty - netChange)\<close>, where \<open>netChange\<close> is the sum of the \<^verbatim>\<open>in\<close>
  amounts minus the sum of the \<^verbatim>\<open>out\<close> amounts of that product's transactions created
  at or after the month start. In particular a product none of whose transactions is
  dated at or after the month start has an opening quantity equal to its current quantity
  (a product quantity is never negative: the schema checks \<^verbatim>\<open>quantity >= 0\<close>).
\<close>

theorem opening_stock_reconstruction:
  "openingStockData monthStart ps ts =
     map (\<lambda>p. \<lparr>o_id = p_id p, o_name = p_name p, o_brand = p_brand p, o_variant = p_variant p,
               currentQty = quantity p,
               openingQty = max 0 (quantity p - netChange_spec monthStart ts (p_id p)),
               change = netChange_spec monthStart ts (p_id p)\<rparr>) ps
   \<and> (\<forall>i < length ps.
         (\<forall>t \<in> set ts. product_id t = p_id (ps ! i) \<longrightarrow> t_created_at t < monthStart) \<longrightarrow>
         0 \<le> quantity (ps ! i) \<longrightarrow>
         openingQty (openingStockData monthStart ps ts ! i) = quantity (ps ! i))"
  by (simp add: openingStockData_def stockChange_eq netChange_spec_none Let_def)

theorem opening_stock_reconstruction_witness:
  "map openingQty (openingStockData 1000
       [mk_product 1 7, mk_product 2 4]
       [mk_tx 5 1 TxOut 3 1500, mk_tx 4 1 TxIn 2 1000, mk_tx 3 2 TxIn 4 999]) = [8, 4]
   \<and> openingQty (openingStockData 1000
       [mk_product 1 7, mk_product 2 4]
       [mk_tx 5 1 TxOut 3 1500, mk_tx 4 1 TxIn 2 1000, mk_tx 3 2 TxIn 4 999] ! 1)
      = quantity ([mk_product 1 7, mk_product 2 4] ! 1)"
  using opening_stock_reconstruction [where monthStart = 1000
      and ps = "[mk_product 1 7, mk_product 2 4]"
      and ts = "[mk_tx 5 1 TxOut 3 1500, mk_tx 4 1 TxIn 2 1000, mk_tx 3 2 TxIn 4 999]"]
  by (simp add: mk_product_def mk_tx_def netChange_spec_def sum_in_def sum_out_def)

subsection \<open>Rounding to the nearest double\<close>

text \<open>\<open>binade\<close> finds the exponent; rounding is monotone, odd, and leaves the integers up
  to \<open>2^53\<close> as they are.\<close>

lemma pow2_pos: "(0::rat) < 2 powi k"
  by simp

lemma pow2_nat: "0 \<le> k \<Longrightarrow> (2::rat) ^ nat k = 2 powi k"
  by (simp add: power_int_def)

lemma pow2_diff: "(2::rat) powi a / 2 powi b = 2 powi (a - b)"
  by (simp add: power_int_diff)

lemma pow2_mono: "a \<le> b \<Longrightarrow> (2::rat) powi a \<le> 2 powi b"
  by (rule power_int_increasing) simp_all

lemma binade_bounds:
  assumes "x \<noteq> 0"
  shows "2 powi binade x \<le> \<bar>x\<bar>" and "\<bar>x\<bar> < 2 powi (binade x + 1)"
proof -
  define a where "a = \<bar>x\<bar>"
  have a: "0 < a" using assms by (simp add: a_def)
  obtain p q where pq: "quotient_of a = (p, q)" by (cases "quotient_of a")
  have q: "0 < q" using pq by (rule quotient_of_denom_pos)
  have aq: "a = of_int p / of_int q" using pq by (rule quotient_of_div)
  have p: "0 < p" using a q aq by (simp add: zero_less_divide_iff)
  define bp where "bp = bitlen p"
  define bq where "bq = bitlen q"
  have bp1: "1 \<le> bp" using p by (simp add: bp_def bitlen_alt_def)
  have bq1: "1 \<le> bq" using q by (simp add: bq_def bitlen_alt_def)
  have "p < 2 ^ nat bp" "2 ^ nat (bp - 1) \<le> p" using bitlen_bounds [OF p] by (simp_all add: bp_def)
  then have P: "(of_int p :: rat) < 2 powi bp" "(2::rat) powi (bp - 1) \<le> of_int p"
    using bp1 
    by (metis (mono_tags) of_int_less_iff of_int_numeral of_int_power pow2_nat bitlen_nonneg bp_def,
        metis (mono_tags) of_int_le_iff of_int_numeral of_int_power pow2_nat diff_ge_0_iff_ge)
  have "q < 2 ^ nat bq" "2 ^ nat (bq - 1) \<le> q" using bitlen_bounds [OF q] by (simp_all add: bq_def)
  then have Q: "(of_int q :: rat) < 2 powi bq" "(2::rat) powi (bq - 1) \<le> of_int q"
    using bq1
    by (metis (mono_tags) of_int_less_iff of_int_numeral of_int_power pow2_nat bitlen_nonneg bq_def,
        metis (mono_tags) of_int_le_iff of_int_numeral of_int_power pow2_nat diff_ge_0_iff_ge)
  have q0: "(0::rat) < of_int q" using q by simp
  have p0: "(0::rat) < of_int p" using p by simp
  have up: "a < 2 powi (bp - bq + 1)"
  proof -
    have "a < 2 powi bp / of_int q" unfolding aq using P(1) q0 by (simp add: divide_strict_right_mono)
    also have "\<dots> \<le> 2 powi bp / 2 powi (bq - 1)"
      using Q(2) q0 by (intro divide_left_mono mult_pos_pos) simp_all
    also have "\<dots> = 2 powi (bp - bq + 1)" by (simp add: pow2_diff algebra_simps)
    finally show ?thesis .
  qed
  have lo: "2 powi (bp - bq - 1) < a"
  proof -
    have "(2::rat) powi (bp - bq - 1) = 2 powi (bp - 1) / 2 powi bq"
      by (simp add: pow2_diff algebra_simps)
    also have "\<dots> \<le> of_int p / 2 powi bq" using P(2) by (simp add: divide_right_mono)
    also have "\<dots> < of_int p / of_int q"
      using Q(1) p0 q0 by (intro divide_strict_left_mono) simp_all
    finally show ?thesis unfolding aq .
  qed
  have b: "binade x = (if 2 powi (bp - bq) \<le> a then bp - bq else bp - bq - 1)"
    unfolding binade_def a_def [symmetric] pq bp_def bq_def by (simp add: Let_def)
  show "2 powi binade x \<le> \<bar>x\<bar>" unfolding b a_def [symmetric] using lo by auto
  show "\<bar>x\<bar> < 2 powi (binade x + 1)" unfolding b a_def [symmetric] using up by auto
qed


lemma round_half_even_int: "round_half_even (of_int n) = n"
  by (simp add: round_half_even_def)

lemma round_half_even_range:
  "\<lfloor>r\<rfloor> \<le> round_half_even r" "round_half_even r \<le> \<lfloor>r\<rfloor> + 1"
  by (simp_all add: round_half_even_def Let_def)

lemma round_half_even_mono:
  assumes "r \<le> s"
  shows "round_half_even r \<le> round_half_even s"
proof (cases "\<lfloor>r\<rfloor> = \<lfloor>s\<rfloor>")
  case True
  then have "r - of_int \<lfloor>r\<rfloor> \<le> s - of_int \<lfloor>s\<rfloor>" using assms by simp
  then show ?thesis using True by (auto simp add: round_half_even_def Let_def)
next
  case False
  then have "\<lfloor>r\<rfloor> < \<lfloor>s\<rfloor>" using floor_mono [OF assms] by simp
  then have "round_half_even r \<le> \<lfloor>s\<rfloor>" using round_half_even_range(2) [of r] by simp
  then show ?thesis using round_half_even_range(1) [of s] by simp
qed

lemma binade_minus: "binade (- x) = binade x"
  by (simp add: binade_def)

lemma round_double_minus: "round_double (- x) = - round_double x"
  by (simp add: round_double_def binade_minus Let_def)

lemma round_double_pos_bounds:
  assumes "0 < x"
  shows "2 powi binade x \<le> round_double x" and "round_double x \<le> 2 powi (binade x + 1)"
proof -
  define u :: rat where "u = 2 powi (binade x - 52)"
  have u: "0 < u" by (simp add: u_def)
  have x0: "x \<noteq> 0" "\<bar>x\<bar> = x" "sgn x = 1" using assms by simp_all
  have lo: "2 powi binade x \<le> x" and hi: "x < 2 powi (binade x + 1)"
    using binade_bounds [OF x0(1)] x0(2) by simp_all
  have e1: "(2::rat) powi binade x = 2 ^ 52 * u"
    by (simp add: u_def power_int_diff)
  have e2: "(2::rat) powi (binade x + 1) = 2 ^ 53 * u"
    by (simp add: u_def power_int_diff power_int_add)
  have "(2::rat) ^ 52 \<le> x / u" using lo u unfolding e1 by (simp add: pos_le_divide_eq)
  then have "round_half_even (of_int (2 ^ 52)) \<le> round_half_even (x / u)"
    by (intro round_half_even_mono) simp
  then have a: "(2::int) ^ 52 \<le> round_half_even (x / u)"
    by (simp only: round_half_even_int)
  have "x / u \<le> (2::rat) ^ 53" using hi u unfolding e2 by (simp add: pos_divide_le_eq)
  then have "round_half_even (x / u) \<le> round_half_even (of_int (2 ^ 53))"
    by (intro round_half_even_mono) simp
  then have b: "round_half_even (x / u) \<le> (2::int) ^ 53"
    by (simp only: round_half_even_int)
  have r: "round_double x = of_int (round_half_even (x / u)) * u"
    using x0 by (simp add: round_double_def u_def Let_def)
  have "(2::rat) ^ 52 \<le> of_int (round_half_even (x / u))"
    using a by (metis of_int_le_iff of_int_numeral of_int_power)
  then show "2 powi binade x \<le> round_double x"
    unfolding r e1 using u by (simp add: mult_right_mono)
  have "of_int (round_half_even (x / u)) \<le> (2::rat) ^ 53"
    using b by (metis of_int_le_iff of_int_numeral of_int_power)
  then show "round_double x \<le> 2 powi (binade x + 1)"
    unfolding r e2 using u by (simp add: mult_right_mono)
qed

lemma round_double_pos: "0 < x \<Longrightarrow> 0 < round_double x"
  using round_double_pos_bounds(1) [of x] pow2_pos [of "binade x"] by linarith

lemma round_double_mono_pos:
  assumes "0 < x" and "x \<le> y"
  shows "round_double x \<le> round_double y"
proof -
  have y: "0 < y" using assms by simp
  have x0: "x \<noteq> 0" "\<bar>x\<bar> = x" "sgn x = 1" using assms by simp_all
  have y0: "y \<noteq> 0" "\<bar>y\<bar> = y" "sgn y = 1" using y by simp_all
  have "2 powi binade x \<le> x" using binade_bounds(1) [OF x0(1)] x0(2) by simp
  also have "x \<le> y" by fact
  also have "y < 2 powi (binade y + 1)" using binade_bounds(2) [OF y0(1)] y0(2) by simp
  finally have lt: "(2::rat) powi binade x < 2 powi (binade y + 1)" .
  have "binade x < binade y + 1"
  proof (rule ccontr)
    assume "\<not> binade x < binade y + 1"
    then have "(2::rat) powi (binade y + 1) \<le> 2 powi binade x" by (intro pow2_mono) simp
    then show False using lt by simp
  qed
  then consider "binade x = binade y" | "binade x + 1 \<le> binade y" by linarith
  then show ?thesis
  proof cases
    case 1
    define u :: rat where "u = 2 powi (binade x - 52)"
    have u: "0 < u" by (simp add: u_def)
    have "x / u \<le> y / u" using assms(2) u by (simp add: divide_right_mono)
    then have "round_half_even (x / u) \<le> round_half_even (y / u)"
      by (rule round_half_even_mono)
    then have "(of_int (round_half_even (x / u)) :: rat) * u \<le> of_int (round_half_even (y / u)) * u"
      using u by (simp add: mult_right_mono)
    then show ?thesis using x0 y0 1 by (simp add: round_double_def u_def Let_def)
  next
    case 2
    have "round_double x \<le> 2 powi (binade x + 1)"
      using round_double_pos_bounds(2) [OF assms(1)] .
    also have "\<dots> \<le> 2 powi binade y" using 2 by (rule pow2_mono)
    also have "\<dots> \<le> round_double y" using round_double_pos_bounds(1) [OF y] .
    finally show ?thesis .
  qed
qed

lemma round_double_mono:
  assumes "x \<le> y"
  shows "round_double x \<le> round_double y"
proof -
  consider "0 < x" | "x \<le> 0" "0 < y" | "y < 0" | "x < 0" "y = 0" | "x = 0" "y = 0"
    using assms by linarith
  then show ?thesis
  proof cases
    case 1
    then show ?thesis using assms by (rule round_double_mono_pos)
  next
    case 2
    have "round_double x \<le> 0"
    proof (cases "x = 0")
      case True
      then show ?thesis by (simp add: round_double_def)
    next
      case False
      then have "0 < - x" using 2 by simp
      then have "0 < round_double (- x)" by (rule round_double_pos)
      then show ?thesis by (simp add: round_double_minus)
    qed
    then show ?thesis using round_double_pos [OF 2(2)] by linarith
  next
    case 3
    then have "0 < - y" "- y \<le> - x" using assms by simp_all
    then have "round_double (- y) \<le> round_double (- x)" by (rule round_double_mono_pos)
    then show ?thesis by (simp add: round_double_minus)
  next
    case 4
    then have "0 < round_double (- x)" by (intro round_double_pos) simp
    then have "round_double x < 0" by (simp add: round_double_minus)
    moreover have "round_double y = 0" using 4 by (simp add: round_double_def)
    ultimately show ?thesis by simp
  next
    case 5
    then show ?thesis by simp
  qed
qed

lemma round_double_int:
  assumes "\<bar>n\<bar> \<le> 2 ^ 53"
  shows "round_double (of_int n) = of_int n"
proof (cases "n = 0")
  case True
  then show ?thesis by (simp add: round_double_def)
next
  case False
  define x :: rat where "x = of_int n"
  define k where "k = 52 - binade x"
  have x0: "x \<noteq> 0" using False by (simp add: x_def)
  have "2 powi binade x \<le> \<bar>x\<bar>" using binade_bounds(1) [OF x0] .
  also have "\<bar>x\<bar> \<le> 2 ^ 53" using assms unfolding x_def
    by (metis of_int_abs of_int_le_iff of_int_numeral of_int_power)
  also have "(2::rat) ^ 53 = 2 powi 53" by simp
  finally have le: "(2::rat) powi binade x \<le> 2 powi 53" .
  have b: "binade x \<le> 53"
  proof (rule ccontr)
    assume "\<not> binade x \<le> 53"
    then have "(2::rat) powi (53 + 1) \<le> 2 powi binade x" by (intro pow2_mono) simp
    moreover have "(2::rat) powi 53 < 2 powi (53 + 1)" by simp
    ultimately show False using le by linarith
  qed
  show ?thesis
  proof (cases "binade x = 53")
    case True
    have "\<bar>x\<bar> = 2 ^ 53"
      using binade_bounds(1) [OF x0] \<open>\<bar>x\<bar> \<le> 2 ^ 53\<close> unfolding True by simp
    then have "\<bar>x\<bar> / 2 = of_int (2 ^ 52)" by simp
    then have rh: "round_half_even (\<bar>x\<bar> / 2) = 2 ^ 52"
      by (simp only: round_half_even_int)
    have "round_double x = sgn x * (of_int (round_half_even (\<bar>x\<bar> / 2)) * 2)"
      using x0 by (simp add: round_double_def Let_def True)
    also have "\<dots> = sgn x * 2 ^ 53" unfolding rh by simp
    also have "\<dots> = sgn x * \<bar>x\<bar>" using \<open>\<bar>x\<bar> = 2 ^ 53\<close> by simp
    also have "\<dots> = x" by (rule mult_sgn_abs)
    finally show ?thesis by (simp add: x_def)
  next
    case False
    then have k: "0 \<le> k" using b by (simp add: k_def)
    have u: "(2::rat) powi (binade x - 52) = 1 / 2 ^ nat k"
      using k by (simp add: k_def power_int_def nat_diff_distrib' field_simps)
    have "\<bar>x\<bar> / 2 powi (binade x - 52) = of_int (\<bar>n\<bar> * 2 ^ nat k)"
      unfolding u by (simp add: x_def)
    then have "round_half_even (\<bar>x\<bar> / 2 powi (binade x - 52)) = \<bar>n\<bar> * 2 ^ nat k"
      by (simp only: round_half_even_int)
    then have "round_double x = sgn x * (of_int (\<bar>n\<bar> * 2 ^ nat k) * (1 / 2 ^ nat k))"
      using x0 unfolding round_double_def Let_def u by simp
    also have "\<dots> = sgn x * \<bar>x\<bar>" by (simp add: x_def)
    also have "\<dots> = x" by (rule mult_sgn_abs)
    finally show ?thesis by (simp add: x_def)
  qed
qed

subsection \<open>Product statistics in terms of the ledger\<close>

lemma foldl_amount: "foldl (\<lambda>sum t. sum + amount t) a ts = a + sum_list (map amount ts)"
  by (induction ts arbitrary: a) auto

lemma reduce_amount_out:
  assumes "\<And>t. Q t = (P t \<and> ttype t = TxOut)"
  shows "reduce_amount (filter Q ts) = sum_out (filter P ts)"
  using assms by (induction ts) (auto simp: reduce_amount_def foldl_amount sum_out_def)

lemma reduce_month_out:
  "reduce_amount (filter (\<lambda>t. product_id t = pid \<and> ttype t = TxOut \<and>
       gm (t_created_at t) = m \<and> gy (t_created_at t) = y) ts) = month_out gm gy pid m y ts"
  unfolding month_out_def by (rule reduce_amount_out) auto

lemma reduce_total_out:
  "reduce_amount (filter (\<lambda>t. product_id t = pid \<and> ttype t = TxOut) ts)
     = sum_out (ledger_of pid ts)"
  unfolding ledger_of_def by (rule reduce_amount_out) auto

lemma filter_out_ledger:
  "filter (\<lambda>t. product_id t = pid \<and> ttype t = TxOut) ts
     = filter (\<lambda>t. ttype t = TxOut) (ledger_of pid ts)"
  unfolding ledger_of_def by (simp add: conj_commute)

lemma stat_trend:
  "(s_trend (productStat gm gy now dateNow ts p), trendValue (productStat gm gy now dateNow ts p)) =
     compute_trend
       (month_out gm gy (p_id p) (gm now) (gy now) ts)
       (month_out gm gy (p_id p) (if gm now = 0 then 11 else gm now - 1)
          (if gm now = 0 then gy now - 1 else gy now) ts)"
  unfolding productStat_def Let_def
  by (simp only: reduce_month_out ProductStat.simps prod.collapse)

lemma stat_turnover:
  "turnoverRate (productStat gm gy now dateNow ts p) =
     compute_turnover (quantity p)
       (round_double
          (of_int (sum_out (ledger_of (p_id p) ts))
             / actualMonths dateNow (filter (\<lambda>t. ttype t = TxOut) (ledger_of (p_id p) ts))))"
  unfolding productStat_def Let_def
  by (simp only: reduce_total_out ProductStat.simps) (simp only: filter_out_ledger)

subsection \<open>Consumption trend\<close>

text \<open>The comparison of the computed change with 5 is the comparison of the exact
  percentage with 5, for totals up to \<open>2^52\<close>: the double nearest to 1/20, times 100,
  rounds to 5, and the smallest quotient above 1/20 with such a denominator gives more.\<close>

lemma hundredfold_mono:
  "x \<le> y \<Longrightarrow> round_double (round_double x * 100) \<le> round_double (round_double y * 100)"
  by (intro round_double_mono mult_right_mono) simp_all

lemma five_percent: "round_double (round_double (1 / 20) * 100) = 5"
  by code_simp

lemma above_five_percent: "5 < round_double (round_double (1 / 20 + 1 / (20 * 2 ^ 52)) * 100)"
  by code_simp

lemma change_threshold:
  fixes n l :: int
  assumes "0 < l" and "l \<le> 2 ^ 52"
  shows "(5 < round_double (round_double (of_int n / of_int l) * 100)) = (l < 20 * n)"
proof (cases "l < 20 * n")
  case True
  have l: "(0::rat) < of_int l" using assms(1) by simp
  have l52: "(of_int l :: rat) \<le> 2 ^ 52"
    using assms(2) by (metis of_int_le_iff of_int_numeral of_int_power)
  have "l + 1 \<le> 20 * n" using True by simp
  then have "(of_int (l + 1) :: rat) \<le> of_int (20 * n)" by (simp only: of_int_le_iff)
  then have "(of_int l + 1 :: rat) / 20 \<le> of_int n" by simp
  then have "((of_int l + 1 :: rat) / 20) / of_int l \<le> of_int n / of_int l"
    using l by (simp only: divide_right_mono less_imp_le)
  moreover have "((of_int l + 1 :: rat) / 20) / of_int l = 1 / 20 + 1 / (20 * of_int l)"
    using l by (simp add: field_simps)
  moreover have "(1::rat) / (20 * 2 ^ 52) \<le> 1 / (20 * of_int l)"
    using l l52 by (intro divide_left_mono mult_pos_pos) simp_all
  ultimately have "(1::rat) / 20 + 1 / (20 * 2 ^ 52) \<le> of_int n / of_int l" by linarith
  then have "round_double (round_double (1 / 20 + 1 / (20 * 2 ^ 52)) * 100)
      \<le> round_double (round_double (of_int n / of_int l) * 100)"
    by (rule hundredfold_mono)
  then show ?thesis using above_five_percent True by simp
next
  case False
  have l: "(0::rat) < of_int l" using assms(1) by simp
  have "20 * n \<le> l" using False by simp
  then have "(of_int (20 * n) :: rat) \<le> of_int l" by (simp only: of_int_le_iff)
  then have "(of_int n :: rat) / of_int l \<le> 1 / 20"
    using l by (simp add: field_simps)
  then have "round_double (round_double (of_int n / of_int l) * 100)
      \<le> round_double (round_double (1 / 20) * 100)"
    by (rule hundredfold_mono)
  then show ?thesis using five_percent False by simp
qed

lemma subtraction_exact:
  fixes t l :: int
  assumes "\<bar>t\<bar> \<le> 2 ^ 52" and "\<bar>l\<bar> \<le> 2 ^ 52"
  shows "round_double (of_int t - of_int l) = of_int (t - l)"
proof -
  have "\<bar>t - l\<bar> \<le> 2 ^ 53" using assms by simp
  then have "round_double (of_int (t - l)) = of_int (t - l)" by (rule round_double_int)
  then show ?thesis by simp
qed

lemma up_iff:
  fixes t l :: int
  assumes "0 < l" and "l \<le> 2 ^ 52" and "\<bar>t\<bar> \<le> 2 ^ 52"
  shows "(percent_change t l > 5) = (20 * (t - l) > l)"
proof -
  have "\<bar>l\<bar> \<le> 2 ^ 52" using assms(1,2) by simp
  then have "percent_change t l
      = round_double (round_double (of_int (t - l) / of_int l) * 100)"
    unfolding percent_change_def using assms(3) by (simp only: subtraction_exact)
  then show ?thesis using change_threshold [OF assms(1,2), of "t - l"] by simp
qed

lemma down_iff:
  fixes t l :: int
  assumes "0 < l" and "l \<le> 2 ^ 52" and "\<bar>t\<bar> \<le> 2 ^ 52"
  shows "(percent_change t l < - 5) = (20 * (l - t) > l)"
proof -
  have al: "\<bar>l\<bar> \<le> 2 ^ 52" using assms(1,2) by simp
  have "(of_int (t - l) :: rat) = - of_int (l - t)" by simp
  then have "(of_int (t - l) :: rat) / of_int l = - (of_int (l - t) / of_int l)"
    by (simp only: minus_divide_left)
  then have "round_double (round_double (of_int (t - l) / of_int l) * 100)
      = - round_double (round_double (of_int (l - t) / of_int l) * 100)"
    by (simp only: round_double_minus mult_minus_left)
  then have "percent_change t l
      = - round_double (round_double (of_int (l - t) / of_int l) * 100)"
    unfolding percent_change_def using assms(3) al by (simp only: subtraction_exact)
  then show ?thesis using change_threshold [OF assms(1,2), of "l - t"] by simp
qed

lemma round_gt5: "Math_round x > 5 \<Longrightarrow> x > 5"
  unfolding Math_round_def by linarith

lemma round_lt5: "Math_round x < - 5 \<Longrightarrow> x < - 5"
  unfolding Math_round_def by linarith

lemma spec_up:
  fixes t l :: int
  assumes "0 < l" and "fst (trend_spec t l) = Up"
  shows "20 * (t - l) > l"
proof -
  let ?x = "100 * (of_int t - of_int l) / (of_int l :: rat)"
  have l: "(0::rat) < of_int l" using assms(1) by simp
  have "Math_round ?x > 5"
    using assms by (simp add: trend_spec_def Let_def split: if_splits)
  then have "?x > 5" by (rule round_gt5)
  then have "(of_int (5 * l) :: rat) < of_int (100 * (t - l))"
    using l by (simp add: pos_less_divide_eq mult.commute)
  then have "5 * l < 100 * (t - l)" by (simp only: of_int_less_iff)
  then show ?thesis by simp
qed

lemma spec_down:
  fixes t l :: int
  assumes "0 < l" and "fst (trend_spec t l) = Down"
  shows "20 * (l - t) > l"
proof -
  let ?x = "100 * (of_int t - of_int l) / (of_int l :: rat)"
  have l: "(0::rat) < of_int l" using assms(1) by simp
  have "Math_round ?x < - 5"
    using assms by (simp add: trend_spec_def Let_def split: if_splits)
  then have "?x < - 5" by (rule round_lt5)
  then have "(of_int (100 * (t - l)) :: rat) < of_int (- 5 * l)"
    using l by (simp add: pos_divide_less_eq mult.commute)
  then have "100 * (t - l) < - 5 * l" by (simp only: of_int_less_iff)
  then show ?thesis by simp
qed

text \<open>
  Claim C7 as stated fails. With 19 units consumed last month and 20 this month the
  change is about 5.26 percent: \<^verbatim>\<open>productStats\<close> compares that with 5 and reports
  \<^verbatim>\<open>up\<close>, while the claim compares the rounded percentage 5 and gives \<^verbatim>\<open>stable\<close>.
  The magnitude differs too: with 40 units last month and 63 this month the source
  multiplies the double nearest to 0.575 by 100, which gives 57.49999999999999, and
  reports 57, where the claim rounds 57.5 to 58.
\<close>

theorem trend_counterexample:
  "s_trend (productStat demo_getMonth demo_getFullYear 2592000000 2592000000
       [mk_tx 2 1 TxOut 20 2592000000, mk_tx 1 1 TxOut 19 0] (mk_product 1 3)) = Up
   \<and> month_out demo_getMonth demo_getFullYear 1 1 1970
       [mk_tx 2 1 TxOut 20 2592000000, mk_tx 1 1 TxOut 19 0] = 20
   \<and> month_out demo_getMonth demo_getFullYear 1 0 1970
       [mk_tx 2 1 TxOut 20 2592000000, mk_tx 1 1 TxOut 19 0] = 19
   \<and> trend_spec 20 19 = (Stable, 5)
   \<and> trendValue (productStat demo_getMonth demo_getFullYear 2592000000 2592000000
       [mk_tx 2 1 TxOut 63 2592000000, mk_tx 1 1 TxOut 40 0] (mk_product 1 3)) = 57
   \<and> trend_spec 63 40 = (Up, 58)"
  by code_simp

text \<open>
  Claim C7, amended. With \<open>thisMonthOut\<close> and \<open>lastMonthOut\<close> the sums of the product's
  \<^verbatim>\<open>out\<close> amounts of the current and of the previous calendar month: when
  \<open>lastMonthOut\<close> is not positive the trend is \<^verbatim>\<open>up\<close> with magnitude 100 if
  \<open>thisMonthOut > 0\<close> and \<^verbatim>\<open>stable\<close> with magnitude 0 otherwise. When
  \<open>lastMonthOut > 0\<close> the trend is decided by the change
  \<open>((thisMonthOut - lastMonthOut) / lastMonthOut) * 100\<close> as computed in double precision,
  not rounded to an integer: \<^verbatim>\<open>up\<close> exactly when it exceeds 5, \<^verbatim>\<open>down\<close> exactly when
  it is below -5, \<^verbatim>\<open>stable\<close> otherwise, and the magnitude is the absolute value of
  \<^verbatim>\<open>Math.round\<close> of that double. For totals up to \<open>2^52\<close> the trend is \<^verbatim>\<open>up\<close> exactly
  when \<open>20 * (thisMonthOut - lastMonthOut) > lastMonthOut\<close>, that is when the exact
  percentage exceeds 5, and \<^verbatim>\<open>down\<close> exactly when
  \<open>20 * (lastMonthOut - thisMonthOut) > lastMonthOut\<close>; the trend is therefore \<^verbatim>\<open>up\<close>
  (\<^verbatim>\<open>down\<close>) whenever the claim's rounded percentage is above 5 (below -5), but not
  conversely.
\<close>

theorem trend_amended:
  assumes "thisMonthOut = month_out gm gy (p_id p) (gm now) (gy now) ts"
    and "lastMonthOut = month_out gm gy (p_id p) (if gm now = 0 then 11 else gm now - 1)
                          (if gm now = 0 then gy now - 1 else gy now) ts"
    and "s = productStat gm gy now dateNow ts p"
    and "delta = round_double
                   (round_double (round_double (of_int thisMonthOut - of_int lastMonthOut)
                                    / of_int lastMonthOut)
                    * 100)"
  shows "(lastMonthOut \<le> 0 \<longrightarrow>
            (s_trend s, trendValue s) = (if thisMonthOut > 0 then (Up, 100) else (Stable, 0)))
       \<and> (lastMonthOut > 0 \<longrightarrow>
            trendValue s = \<bar>Math_round delta\<bar>
          \<and> (s_trend s = Up \<longleftrightarrow> delta > 5)
          \<and> (s_trend s = Down \<longleftrightarrow> delta < - 5)
          \<and> (s_trend s = Stable \<longleftrightarrow> - 5 \<le> delta \<and> delta \<le> 5))
       \<and> (lastMonthOut > 0 \<and> lastMonthOut \<le> 2 ^ 52 \<and> \<bar>thisMonthOut\<bar> \<le> 2 ^ 52 \<longrightarrow>
            (s_trend s = Up \<longleftrightarrow> 20 * (thisMonthOut - lastMonthOut) > lastMonthOut)
          \<and> (s_trend s = Down \<longleftrightarrow> 20 * (lastMonthOut - thisMonthOut) > lastMonthOut)
          \<and> (fst (trend_spec thisMonthOut lastMonthOut) = Up \<longrightarrow> s_trend s = Up)
          \<and> (fst (trend_spec thisMonthOut lastMonthOut) = Down \<longrightarrow> s_trend s = Down))"
proof -
  have st: "(s_trend s, trendValue s) = compute_trend thisMonthOut lastMonthOut"
    unfolding assms(1-3) by (rule stat_trend)
  have ch: "delta = percent_change thisMonthOut lastMonthOut"
    unfolding assms(4) percent_change_def by (rule refl)
  have low: "lastMonthOut \<le> 0 \<longrightarrow>
      (s_trend s, trendValue s) = (if thisMonthOut > 0 then (Up, 100) else (Stable, 0))"
    unfolding st by (simp add: compute_trend_def)
  have high: "trendValue s = \<bar>Math_round delta\<bar>
          \<and> (s_trend s = Up \<longleftrightarrow> delta > 5)
          \<and> (s_trend s = Down \<longleftrightarrow> delta < - 5)
          \<and> (s_trend s = Stable \<longleftrightarrow> - 5 \<le> delta \<and> delta \<le> 5)" if "lastMonthOut > 0"
  proof -
    have "fst (compute_trend thisMonthOut lastMonthOut) = s_trend s"
      "snd (compute_trend thisMonthOut lastMonthOut) = trendValue s"
      using st by (metis fst_conv, metis snd_conv)
    then show ?thesis using that unfolding ch
      by (auto simp: compute_trend_def Let_def split: if_splits)
  qed
  have ints: "(s_trend s = Up \<longleftrightarrow> 20 * (thisMonthOut - lastMonthOut) > lastMonthOut)
          \<and> (s_trend s = Down \<longleftrightarrow> 20 * (lastMonthOut - thisMonthOut) > lastMonthOut)
          \<and> (fst (trend_spec thisMonthOut lastMonthOut) = Up \<longrightarrow> s_trend s = Up)
          \<and> (fst (trend_spec thisMonthOut lastMonthOut) = Down \<longrightarrow> s_trend s = Down)"
    if b: "lastMonthOut > 0" "lastMonthOut \<le> 2 ^ 52" "\<bar>thisMonthOut\<bar> \<le> 2 ^ 52"
  proof -
    have u: "(delta > 5) = (20 * (thisMonthOut - lastMonthOut) > lastMonthOut)"
      unfolding ch using b by (rule up_iff)
    have d: "(delta < - 5) = (20 * (lastMonthOut - thisMonthOut) > lastMonthOut)"
      unfolding ch using b by (rule down_iff)
    show ?thesis
      using high [OF b(1)] u d spec_up [OF b(1), of thisMonthOut]
        spec_down [OF b(1), of thisMonthOut] by blast
  qed
  show ?thesis using low high ints by blast
qed

theorem trend_amended_witness:
  "(s_trend (productStat demo_getMonth demo_getFullYear 2592000000 2592000000
       [mk_tx 2 1 TxOut 63 2592000000, mk_tx 1 1 TxOut 40 0] (mk_product 1 3)),
    trendValue (productStat demo_getMonth demo_getFullYear 2592000000 2592000000
       [mk_tx 2 1 TxOut 63 2592000000, mk_tx 1 1 TxOut 40 0] (mk_product 1 3))) = (Up, 57)
   \<and> (s_trend (productStat demo_getMonth demo_getFullYear 2592000000 2592000000
       [mk_tx 2 1 TxOut 29 2592000000, mk_tx 1 1 TxOut 40 0] (mk_product 1 3)),
      trendValue (productStat demo_getMonth demo_getFullYear 2592000000 2592000000
       [mk_tx 2 1 TxOut 29 2592000000, mk_tx 1 1 TxOut 40 0] (mk_product 1 3))) = (Down, 28)
   \<and> s_trend (productStat demo_getMonth demo_getFullYear 2592000000 2592000000
       [mk_tx 2 1 TxOut 21 2592000000, mk_tx 1 1 TxOut 20 0] (mk_product 1 3)) = Stable
   \<and> (s_trend (productStat demo_getMonth demo_getFullYear 2592000000 2592000000
       [mk_tx 2 1 TxOut 4 2592000000] (mk_product 1 3)),
      trendValue (productStat demo_getMonth demo_getFullYear 2592000000 2592000000
       [mk_tx 2 1 TxOut 4 2592000000] (mk_product 1 3))) = (Up, 100)"
proof -
  have v: "Math_round (round_double (round_double (round_double (63 - 40) / 40) * 100)) = 57"
    "5 < round_double (round_double (round_double (63 - 40) / 40) * 100)"
    "Math_round (round_double (round_double (round_double (29 - 40) / 40) * 100)) = - 28"
    "round_double (round_double (round_double (29 - 40) / 40) * 100) < - 5"
    "round_double (round_double (round_double (21 - 20) / 20) * 100) = 5"
    by code_simp+
  from trend_amended [OF refl refl refl refl, where gm = demo_getMonth
      and gy = demo_getFullYear and p = "mk_product 1 3" and now = 2592000000
      and ts = "[mk_tx 2 1 TxOut 63 2592000000, mk_tx 1 1 TxOut 40 0]" and dateNow = 2592000000]
    trend_amended [OF refl refl refl refl, where gm = demo_getMonth
      and gy = demo_getFullYear and p = "mk_product 1 3" and now = 2592000000
      and ts = "[mk_tx 2 1 TxOut 29 2592000000, mk_tx 1 1 TxOut 40 0]" and dateNow = 2592000000]
    trend_amended [OF refl refl refl refl, where gm = demo_getMonth
      and gy = demo_getFullYear and p = "mk_product 1 3" and now = 2592000000
      and ts = "[mk_tx 2 1 TxOut 21 2592000000, mk_tx 1 1 TxOut 20 0]" and dateNow = 2592000000]
    trend_amended [OF refl refl refl refl, where gm = demo_getMonth
      and gy = demo_getFullYear and p = "mk_product 1 3" and now = 2592000000
      and ts = "[mk_tx 2 1 TxOut 4 2592000000]" and dateNow = 2592000000]
  show ?thesis using v
    by (simp add: month_out_def sum_out_def mk_tx_def mk_product_def demo_getMonth_def
        demo_getFullYear_def)
qed

subsection \<open>Turnover classification\<close>

lemma last_is_Min:
  assumes ne: "outs \<noteq> []" and s: "sorted (rev (map t_created_at outs))"
  shows "t_created_at (last outs) = Min (set (map t_created_at outs))"
proof -
  let ?xs = "rev (map t_created_at outs)"
  have "?xs \<noteq> []" using ne by simp
  then have "Min (set ?xs) = hd ?xs" using s
    by (cases ?xs) (auto intro!: Min_eqI)
  moreover have "hd ?xs = t_created_at (last outs)" using ne
    by (simp add: hd_rev last_map)
  ultimately show ?thesis by simp
qed

text \<open>
  Claim C6 as stated fails. A product with quantity 1 whose only withdrawal, of one unit,
  is 60 days old has an average monthly consumption of 1/2. The source divides the
  quantity by the average unless the average is zero (\<^verbatim>\<open>avgMonthlyConsumption || 1\<close>):
  2 months of stock, class \<^verbatim>\<open>Med\<close>. The claim divides by
  \<open>max avgMonthlyConsumption 1\<close>: 1 month of stock, class \<^verbatim>\<open>High\<close>. All the numbers
  involved are doubles, no operation rounds.
\<close>

theorem turnover_counterexample:
  "turnoverRate (productStat demo_getMonth demo_getFullYear 5184000000 5184000000
       [mk_tx 1 1 TxOut 1 0] (mk_product 1 1)) = Med
   \<and> turnover_spec 1 (1 / actualMonths_spec 5184000000 [mk_tx 1 1 TxOut 1 0]) = High"
  by code_simp

text \<open>
  Claim C6, amended. For a product whose \<^verbatim>\<open>out\<close> transactions stand newest first in
  the transactions snapshot, every quotient being rounded to the nearest double:
  \<open>actualMonths\<close> is 1 when there are no \<^verbatim>\<open>out\<close> transactions, otherwise
  \<open>max 1 ((now - earliest) / 30 days)\<close> with \<open>earliest\<close> the earliest creation date among
  them; the average monthly consumption is the total consumed divided by
  \<open>actualMonths\<close>; when the quantity is positive the months of stock are the quantity
  divided by the average, or the quantity itself when the average is zero, classified
  \<^verbatim>\<open>High\<close> below 2, \<^verbatim>\<open>Med\<close> below 6, else \<^verbatim>\<open>Low\<close>; otherwise the class is
  \<^verbatim>\<open>High\<close> if the average exceeds 10, else \<^verbatim>\<open>Low\<close>.
\<close>

theorem turnover_amended:
  assumes "outs = filter (\<lambda>t. ttype t = TxOut) (ledger_of (p_id p) ts)"
    and "sorted (rev (map t_created_at outs))"
    and "months =
           (if outs = [] then 1
            else max 1 (round_double
                          (round_double (of_int dateNow
                                           - of_int (Min (set (map t_created_at outs))))
                           / 2592000000)))"
    and "avg = round_double (of_int (sum_out (ledger_of (p_id p) ts)) / months)"
    and "monthsOfStock = round_double (of_int (quantity p) / (if avg = 0 then 1 else avg))"
  shows "turnoverRate (productStat gm gy now dateNow ts p) =
           (if quantity p > 0 then
              (if monthsOfStock < 2 then High else if monthsOfStock < 6 then Med else Low)
            else if avg > 10 then High else Low)"
proof -
  have m: "months = actualMonths dateNow outs"
  proof (cases "outs = []")
    case True
    then show ?thesis unfolding assms(3) actualMonths_def by simp
  next
    case False
    then have "t_created_at (last outs) = Min (set (map t_created_at outs))"
      using assms(2) by (rule last_is_Min)
    then show ?thesis unfolding assms(3) actualMonths_def using False by (simp add: Let_def)
  qed
  have t: "turnoverRate (productStat gm gy now dateNow ts p) = compute_turnover (quantity p) avg"
    unfolding assms(4) m assms(1) by (rule stat_turnover)
  show ?thesis unfolding t assms(5) compute_turnover_def by (simp add: Let_def)
qed

theorem turnover_amended_witness:
  "turnoverRate (productStat demo_getMonth demo_getFullYear 3628800000 3628800000
       [mk_tx 2 1 TxOut 21 0] (mk_product 1 30)) = High
   \<and> turnoverRate (productStat demo_getMonth demo_getFullYear 5184000000 5184000000
       [mk_tx 3 1 TxOut 2 2592000000, mk_tx 2 1 TxOut 1 0] (mk_product 1 9)) = Low
   \<and> turnoverRate (productStat demo_getMonth demo_getFullYear 5184000000 5184000000
       [mk_tx 3 1 TxOut 20 2592000000, mk_tx 2 1 TxOut 4 0] (mk_product 1 0)) = High"
proof -
  have s: "sorted (rev (map t_created_at
             (filter (\<lambda>t. ttype t = TxOut) (ledger_of (p_id (mk_product 1 30))
                [mk_tx 2 1 TxOut 21 0]))))"
    "sorted (rev (map t_created_at
       (filter (\<lambda>t. ttype t = TxOut) (ledger_of (p_id (mk_product 1 9))
          [mk_tx 3 1 TxOut 2 2592000000, mk_tx 2 1 TxOut 1 0]))))"
    "sorted (rev (map t_created_at
       (filter (\<lambda>t. ttype t = TxOut) (ledger_of (p_id (mk_product 1 0))
          [mk_tx 3 1 TxOut 20 2592000000, mk_tx 2 1 TxOut 4 0]))))"
    by (simp_all add: ledger_of_def mk_tx_def mk_product_def)
  have v: "round_double (30 / round_double (21 / max 1 (round_double
             (round_double (3628800000 - 0) / 2592000000)))) < 2"
    "round_double (21 / max 1 (round_double
             (round_double (3628800000 - 0) / 2592000000))) \<noteq> 0"
    "round_double (9 / round_double (3 / max 1 (round_double
             (round_double (5184000000 - 0) / 2592000000)))) = 6"
    "round_double (3 / max 1 (round_double
             (round_double (5184000000 - 0) / 2592000000))) \<noteq> 0"
    "round_double (24 / max 1 (round_double (round_double (5184000000 - 0) / 2592000000)))
       = 12"
    by code_simp+
  from turnover_amended [OF refl s(1) refl refl refl, where dateNow = 3628800000
      and gm = demo_getMonth and gy = demo_getFullYear and now = 3628800000]
    turnover_amended [OF refl s(2) refl refl refl, where dateNow = 5184000000
      and gm = demo_getMonth and gy = demo_getFullYear and now = 5184000000]
    turnover_amended [OF refl s(3) refl refl refl, where dateNow = 5184000000
      and gm = demo_getMonth and gy = demo_getFullYear and now = 5184000000]
  show ?thesis using v
    by (simp add: ledger_of_def sum_out_def mk_tx_def mk_product_def)
qed

section \<open>Properties of the stock mutation engine\<close>

lemmas store_defs = products_insert_def transactions_insert_def products_update_quantity_def
  transactions_delete_def issue_def set_quantity_def

lemmas sample_defs = empty_db_def init_app_def shampoo_def offline_def mk_product_def mk_tx_def
  str_or_def num_or_def warehouse_scope_def

lemmas eval_defs = handleConfirmAction_def updateProductQuantity_def createTransaction_def
  adjust_tx_def finalStock_def actualAmount_def store_defs sample_defs Let_def

lemma stocked_eq:
  "stocked =
     \<lparr>user = Some ''salon'', configured = True, warehouseEnabled = False,
      currentWarehouse = None, products = [mk_product 0 10],
      transactions = [(mk_tx 1 0 TxIn 10 0)\<lparr>t_notes := ''initial stock''\<rparr>],
      allTransactions = [(mk_tx 1 0 TxIn 10 0)\<lparr>t_notes := ''initial stock''\<rparr>],
      db = \<lparr>db_products = [mk_product 0 10],
             db_transactions = [(mk_tx 1 0 TxIn 10 0)\<lparr>t_notes := ''initial stock''\<rparr>],
             db_next_id = 2,
             db_calls = [InsertProduct 10, InsertTransaction 0 TxIn 10]\<rparr>\<rparr>"
  by (simp add: stocked_def createProduct_def store_defs sample_defs Let_def)

subsection \<open>The steps of an operation\<close>

lemma updateProductQuantity_True:
  assumes "updateProductQuantity fault now pid q st = (st1, True)"
  shows "db_products (db st1) =
           map (\<lambda>p. if p_id p = pid then p\<lparr>quantity := q, p_updated_at := now\<rparr> else p)
             (db_products (db st))"
    and "db_transactions (db st1) = db_transactions (db st)"
    and "db_next_id (db st1) = db_next_id (db st)"
    and "db_calls (db st1) = db_calls (db st) @ [UpdateProductQuantity pid q]"
    and "products st1 = set_quantity pid q (products st)"
    and "transactions st1 = transactions st" and "allTransactions st1 = allTransactions st"
    and "user st1 = user st" and "configured st1 = configured st"
    and "warehouseEnabled st1 = warehouseEnabled st"
    and "currentWarehouse st1 = currentWarehouse st"
  using assms
  by (auto simp: updateProductQuantity_def products_update_quantity_def issue_def Let_def
      split: option.splits if_splits prod.splits)

lemma updateProductQuantity_False:
  assumes "updateProductQuantity fault now pid q st = (st1, False)"
  shows "st1 = st\<lparr>db := issue (UpdateProductQuantity pid q) (db st)\<rparr>"
  using assms
  by (auto simp: updateProductQuantity_def products_update_quantity_def Let_def
      split: option.splits if_splits prod.splits)

lemma createTransaction_None:
  assumes "createTransaction fault now ti st = (st1, None)"
  shows "st1 = st \<or> (\<exists>uid. user st = Some uid \<and> st1 = st\<lparr>db := issue (InsertTransaction (ti_product_id ti) (ti_type ti) (ti_amount ti)) (db st)\<rparr>)"
  using assms
  by (auto simp: createTransaction_def transactions_insert_def Let_def
      split: option.splits if_splits prod.splits sum.splits)

lemma createTransaction_Some:
  assumes "createTransaction fault now ti st = (st1, Some t)"
  shows "db_transactions (db st1) = db_transactions (db st) @ [t]"
    and "product_id t = ti_product_id ti" and "ttype t = ti_type ti"
    and "amount t = ti_amount ti" and "0 < amount t"
    and "t_id t = db_next_id (db st)"
    and "db_next_id (db st1) = Suc (db_next_id (db st))"
    and "product_id t \<in> p_id ` set (db_products (db st))"
    and "db_products (db st1) = db_products (db st)"
    and "products st1 = products st"
    and "transactions st1 = t # transactions st"
    and "allTransactions st1 = allTransactions st @ [t]"
    and "db_calls (db st1) = db_calls (db st) @ [InsertTransaction (ti_product_id ti) (ti_type ti) (ti_amount ti)]"
    and "user st1 = user st" and "configured st1 = configured st"
    and "warehouseEnabled st1 = warehouseEnabled st"
    and "currentWarehouse st1 = currentWarehouse st"
  using assms
  by (auto simp: createTransaction_def transactions_insert_def issue_def Let_def
      split: option.splits if_splits prod.splits sum.splits)

lemma createTransaction_None_facts:
  assumes "createTransaction fault now ti st = (st1, None)"
  shows "db_products (db st1) = db_products (db st)"
    and "db_transactions (db st1) = db_transactions (db st)"
    and "products st1 = products st"
    and "transactions st1 = transactions st"
    and "allTransactions st1 = allTransactions st"
  using createTransaction_None [OF assms] by (auto simp: issue_def)

lemma p_id_rewritten:
  "map p_id (map (\<lambda>p. if p_id p = pid then p\<lparr>quantity := q, p_updated_at := now\<rparr> else p) ps)
     = map p_id ps"
  by (induction ps) auto

lemma p_id_set_rewritten:
  "p_id ` set (map (\<lambda>p. if p_id p = pid then p\<lparr>quantity := q, p_updated_at := now\<rparr> else p) ps)
     = p_id ` set ps"
proof -
  have "set (map p_id (map (\<lambda>p. if p_id p = pid then p\<lparr>quantity := q, p_updated_at := now\<rparr> else p) ps))
     = set (map p_id ps)"
    by (simp only: p_id_rewritten)
  then show ?thesis by (simp only: set_map)
qed

lemma find_rewritten:
  "find (\<lambda>p. p_id p = pid') (map (\<lambda>p. if p_id p = pid then p\<lparr>quantity := q, p_updated_at := now\<rparr> else p) ps)
    = map_option (\<lambda>p. if p_id p = pid then p\<lparr>quantity := q, p_updated_at := now\<rparr> else p) (find (\<lambda>p. p_id p = pid') ps)"
  by (induction ps) simp_all


lemma find_Some_iff_mem:
  "pid \<in> p_id ` set ps \<Longrightarrow> \<exists>p. find (\<lambda>p. p_id p = pid) ps = Some p \<and> p_id p = pid"
  by (induction ps) auto

lemma quantity_of_rewritten:
  assumes "pid \<in> p_id ` set ps"
  shows "quantity_of pid (map (\<lambda>p. if p_id p = pid then p\<lparr>quantity := q, p_updated_at := now\<rparr> else p) ps)
       = Some q"
proof -
  obtain p where "find (\<lambda>p. p_id p = pid) ps = Some p" "p_id p = pid"
    using find_Some_iff_mem [OF assms] by blast
  then show ?thesis
    unfolding quantity_of_def find_product_def find_rewritten by simp
qed

lemma quantity_restored:
  "\<forall>p\<in>set ps. p_id p = pid \<longrightarrow> quantity p = c \<Longrightarrow>
     map quantity
       (map (\<lambda>p. if p_id p = pid then p\<lparr>quantity := c, p_updated_at := n2\<rparr> else p)
          (map (\<lambda>p. if p_id p = pid then p\<lparr>quantity := f, p_updated_at := n1\<rparr> else p) ps))
     = map quantity ps"
  by (induction ps) simp_all

lemma quantity_restored_local:
  "\<forall>p\<in>set ps. p_id p = pid \<longrightarrow> quantity p = c \<Longrightarrow>
     map quantity (set_quantity pid c (set_quantity pid f ps)) = map quantity ps"
  unfolding set_quantity_def by (induction ps) simp_all

lemma handleConfirmAction_Navigated:
  assumes run: "handleConfirmAction faultU faultT faultR now isSubmitting product operation
                  adjustAmount notes customDate st = (st', Navigated)"
  obtains st1 created t where
    "updateProductQuantity faultU now (p_id product)
          (finalStock operation (quantity product) adjustAmount) st = (st1, True)"
    "customDate = Some created"
    "createTransaction faultT now
          (adjust_tx product operation adjustAmount notes created) st1 = (st', Some t)"
proof -
  obtain st1 b where u: "updateProductQuantity faultU now (p_id product)
          (finalStock operation (quantity product) adjustAmount) st = (st1, b)"
    by (cases "updateProductQuantity faultU now (p_id product)
          (finalStock operation (quantity product) adjustAmount) st") auto
  have ns: "\<not> isSubmitting" using run by (auto simp: handleConfirmAction_def)
  have b: "b" using run ns u by (cases b) (auto simp: handleConfirmAction_def)
  obtain created where d: "customDate = Some created"
    using run ns u b by (cases customDate) (auto simp: handleConfirmAction_def)
  obtain st2 r where c: "createTransaction faultT now
          (adjust_tx product operation adjustAmount notes created) st1 = (st2, r)"
    by (cases "createTransaction faultT now
          (adjust_tx product operation adjustAmount notes created) st1") auto
  have "r \<noteq> None \<and> st2 = st'"
    using run ns u b d c by (cases r) (auto simp: handleConfirmAction_def)
  then obtain t where "r = Some t" "st2 = st'" by auto
  then show ?thesis using that u b d c by simp
qed

subsection \<open>Create Product: a failed initial transaction\<close>

text \<open>
  Claim C5 as stated fails. When the product row is written and the write of the initial
  transaction fails, \<^verbatim>\<open>createProduct\<close> returns the new product with \<^verbatim>\<open>error: null\<close>,
  exactly the result of a creation whose two writes both succeed: nothing is surfaced to
  the caller.
\<close>

theorem create_product_counterexample:
  "error (snd (createProduct None (Some offline) 0 (shampoo 10) init_app)) = None
   \<and> snd (createProduct None (Some offline) 0 (shampoo 10) init_app)
       = snd (createProduct None None 0 (shampoo 10) init_app)"
  by (simp add: createProduct_def store_defs sample_defs Let_def)

text \<open>
  Claim C5, amended. For every Create Product with an initial quantity above zero in
  which the product row is written and the write of the initial \<^verbatim>\<open>in\<close> transaction
  fails, the creation is reported successful with no error, the result being the same as
  that of a fully successful creation (the failure is not surfaced to the caller); the
  product exists with its non-zero quantity and no ledger entry is written.
\<close>

theorem create_product_amended:
  assumes "user st = Some uid" and "configured st"
    and "0 < num_or (pi_quantity productData) 0"
    and "r = createProduct None (Some e) now productData st"
  shows "error (snd r) = None
       \<and> (\<exists>p. data (snd r) = Some p \<and> quantity p = num_or (pi_quantity productData) 0
              \<and> 0 < quantity p \<and> p_id p = db_next_id (db st)
              \<and> db_products (db (fst r)) = db_products (db st) @ [p]
              \<and> products (fst r) = products st @ [p])
       \<and> db_transactions (db (fst r)) = db_transactions (db st)
       \<and> transactions (fst r) = transactions st
       \<and> allTransactions (fst r) = allTransactions st
       \<and> snd r = snd (createProduct None None now productData st)"
  using assms
  by (simp add: createProduct_def store_defs Let_def split: prod.splits sum.splits)

theorem create_product_amended_witness:
  "error (snd (createProduct None (Some offline) 0 (shampoo 10) init_app)) = None
   \<and> map quantity (db_products (db (fst (createProduct None (Some offline) 0 (shampoo 10) init_app)))) = [10]
   \<and> db_transactions (db (fst (createProduct None (Some offline) 0 (shampoo 10) init_app))) = []"
  using create_product_amended [OF _ _ _ refl, where st = init_app and uid = "''salon''"
      and productData = "shampoo 10" and e = offline and now = 0]
  by (auto simp add: sample_defs)

subsection \<open>Adjust Stock: clamped withdrawal\<close>

text \<open>
  Claim C2. When an \<^verbatim>\<open>out\<close> adjustment whose requested amount exceeds the product's
  current quantity goes through, the one transaction it records has the current quantity
  as its amount, not the requested amount, and the product's quantity is 0 afterwards,
  in the store and in the snapshot.
\<close>

theorem clamped_withdrawal:
  assumes run: "handleConfirmAction faultU faultT faultR now isSubmitting product Subtract
                  adjustAmount notes customDate st = (st', Navigated)"
    and over: "quantity product < adjustAmount"
  shows "(\<exists>t. db_transactions (db st') = db_transactions (db st) @ [t]
             \<and> product_id t = p_id product \<and> ttype t = TxOut
             \<and> amount t = quantity product)
       \<and> quantity_of (p_id product) (db_products (db st')) = Some 0
       \<and> (\<forall>p \<in> set (products st'). p_id p = p_id product \<longrightarrow> quantity p = 0)"
proof -
  from run obtain st1 created t where
    u: "updateProductQuantity faultU now (p_id product)
          (finalStock Subtract (quantity product) adjustAmount) st = (st1, True)"
    and c: "createTransaction faultT now
          (adjust_tx product Subtract adjustAmount notes created) st1 = (st', Some t)"
    by (rule handleConfirmAction_Navigated)
  have fin: "finalStock Subtract (quantity product) adjustAmount = 0"
    using over by (simp add: finalStock_def)
  have act: "ti_amount (adjust_tx product Subtract adjustAmount notes created) = quantity product"
    using over by (simp add: adjust_tx_def actualAmount_def)
  note U = updateProductQuantity_True [OF u]
  note C = createTransaction_Some [OF c]
  have tx: "db_transactions (db st') = db_transactions (db st) @ [t]"
    using C(1) U(2) by simp
  have t: "product_id t = p_id product" "ttype t = TxOut" "amount t = quantity product"
    using C(2,3,4) act by (simp_all add: adjust_tx_def)
  have "p_id product \<in> p_id ` set (db_products (db st))"
    using C(8) t(1) U(1) by (simp only: p_id_set_rewritten)
  then have q: "quantity_of (p_id product) (db_products (db st')) = Some 0"
    using C(9) U(1) fin by (simp only: quantity_of_rewritten)
  have l: "\<forall>p \<in> set (products st'). p_id p = p_id product \<longrightarrow> quantity p = 0"
    using C(10) U(5) fin by (auto simp: set_quantity_def)
  show ?thesis using tx t q l by blast
qed

lemma demo_out15: "snd (demo_adjust None None None Subtract 15 (Some 50)) = Navigated"
  by (simp add: demo_adjust_def stocked_eq eval_defs)



theorem clamped_withdrawal_witness:
  "map amount (db_transactions (db (fst (demo_adjust None None None Subtract 15 (Some 50)))))
     = [10, 10]
   \<and> quantity_of 0 (db_products (db (fst (demo_adjust None None None Subtract 15 (Some 50)))))
     = Some 0"
proof -
  have run: "handleConfirmAction None None None 100 False (mk_product 0 10) Subtract 15
       ''used'' (Some 50) stocked
     = (fst (demo_adjust None None None Subtract 15 (Some 50)), Navigated)"
    using demo_out15 by (simp add: demo_adjust_def prod_eq_iff)
  have over: "quantity (mk_product 0 10) < 15" by (simp add: mk_product_def)
  from clamped_withdrawal [OF run over] show ?thesis
    by (auto simp: stocked_eq mk_product_def mk_tx_def)
qed

subsection \<open>Adjust Stock: compensation\<close>

text \<open>
  Claim C3: when the quantity write of an Adjust Stock succeeds and the transaction write
  fails, the engine rewrites the product's quantity to its pre-adjustment value and
  reports failure, so that the quantity after the failed operation is the one before it.
  The source issues the compensating write without looking at its result, where the
  result of the first quantity write is inspected. The product holds 10 units and 5 are
  added: the quantity write succeeds, the transaction write fails and the compensating
  write fails as well. The store and the snapshot keep the quantity 15, and the user is
  told that the stock was rolled back.
\<close>

theorem adjust_rollback_unchecked:
  "quantity_of 0 (db_products (db stocked)) = Some 10
   \<and> snd (demo_adjust None (Some offline) (Some offline) Add 5 (Some 50))
       = Alerted TransactionFailedRolledBack
   \<and> db_calls (db (fst (demo_adjust None (Some offline) (Some offline) Add 5 (Some 50))))
       = [InsertProduct 10, InsertTransaction 0 TxIn 10, UpdateProductQuantity 0 15,
          InsertTransaction 0 TxIn 5, UpdateProductQuantity 0 10]
   \<and> quantity_of 0 (db_products (db (fst
         (demo_adjust None (Some offline) (Some offline) Add 5 (Some 50))))) = Some 15
   \<and> quantity_of 0 (products (fst
         (demo_adjust None (Some offline) (Some offline) Add 5 (Some 50)))) = Some 15
   \<and> map amount (db_transactions (db (fst
         (demo_adjust None (Some offline) (Some offline) Add 5 (Some 50))))) = [10]"
  by (simp add: demo_adjust_def stocked_eq eval_defs quantity_of_def find_product_def)

text \<open>Whatever becomes of the compensating write, it is issued, nothing is added to the
  ledger and the failure is reported. When the write is accepted, and the page shows the
  product with the quantity the store and the snapshot hold, the failed adjustment
  leaves the quantities as they were.\<close>

lemma adjust_failure_reported:
  assumes ns: "\<not> isSubmitting"
    and u: "updateProductQuantity faultU now (p_id product)
              (finalStock operation (quantity product) adjustAmount) st = (st1, True)"
    and d: "customDate = Some created"
    and c: "createTransaction faultT now
              (adjust_tx product operation adjustAmount memo created) st1 = (st2, None)"
    and r: "r = handleConfirmAction faultU faultT faultR now isSubmitting product operation
                  adjustAmount memo customDate st"
  shows "snd r = Alerted TransactionFailedRolledBack
       \<and> db_calls (db (fst r))
           = db_calls (db st2) @ [UpdateProductQuantity (p_id product) (quantity product)]
       \<and> db_transactions (db (fst r)) = db_transactions (db st)"
proof -
  note U = updateProductQuantity_True [OF u]
  note C = createTransaction_None_facts [OF c]
  have "r = (fst (updateProductQuantity faultR now (p_id product) (quantity product) st2),
             Alerted TransactionFailedRolledBack)"
    unfolding r using ns u d c by (simp add: handleConfirmAction_def)
  then show ?thesis using U(2) C(2)
    by (simp add: updateProductQuantity_def products_update_quantity_def issue_def Let_def
        split: option.splits)
qed

lemma adjust_compensation_written:
  assumes ns: "\<not> isSubmitting"
    and u: "updateProductQuantity faultU now (p_id product)
              (finalStock operation (quantity product) adjustAmount) st = (st1, True)"
    and d: "customDate = Some created"
    and c: "createTransaction faultT now
              (adjust_tx product operation adjustAmount notes created) st1 = (st2, None)"
    and r: "updateProductQuantity faultR now (p_id product) (quantity product) st2 = (st3, True)"
    and sync: "\<forall>p\<in>set (db_products (db st)). p_id p = p_id product \<longrightarrow> quantity p = quantity product"
    and snap: "\<forall>p\<in>set (products st). p_id p = p_id product \<longrightarrow> quantity p = quantity product"
  shows "handleConfirmAction faultU faultT faultR now isSubmitting product operation
            adjustAmount notes customDate st = (st3, Alerted TransactionFailedRolledBack)
       \<and> map quantity (db_products (db st3)) = map quantity (db_products (db st))
       \<and> map quantity (products st3) = map quantity (products st)
       \<and> db_transactions (db st3) = db_transactions (db st)"
proof -
  have run: "handleConfirmAction faultU faultT faultR now isSubmitting product operation
            adjustAmount notes customDate st = (st3, Alerted TransactionFailedRolledBack)"
    using ns u d c r by (simp add: handleConfirmAction_def)
  note U = updateProductQuantity_True [OF u]
  note C = createTransaction_None_facts [OF c]
  note R = updateProductQuantity_True [OF r]
  have q: "map quantity (db_products (db st3)) = map quantity (db_products (db st))"
    unfolding R(1) C(1) U(1) using sync by (rule quantity_restored)
  have l: "map quantity (products st3) = map quantity (products st)"
    unfolding R(5) C(3) U(5) using snap by (rule quantity_restored_local)
  have t: "db_transactions (db st3) = db_transactions (db st)"
    unfolding R(2) C(2) U(2) by (rule refl)
  show ?thesis using run q l t by simp
qed

subsection \<open>Positive amounts\<close>

text \<open>The rows of the transactions table have positive amounts because the store rejects
  any other row. Of the three writers only \<^verbatim>\<open>createProduct\<close> looks at the amount
  before it submits a row.\<close>

lemma transactions_insert_written:
  "\<exists>ws. db_transactions (fst (transactions_insert fault now row created d)) = db_transactions d @ ws
         \<and> (\<forall>t\<in>set ws. 0 < amount t)"
  by (simp add: transactions_insert_def issue_def Let_def split: option.splits)

lemma createProduct_submits_positive:
  "\<exists>cs. db_calls (db (fst (createProduct faultP faultT now productData st))) = db_calls (db st) @ cs
         \<and> (\<forall>pid ty a. InsertTransaction pid ty a \<in> set cs \<longrightarrow> 0 < a)"
  by (auto simp: createProduct_def products_insert_def transactions_insert_def issue_def Let_def
      split: option.splits)

lemma createTransaction_submits:
  assumes "user st = Some uid"
  shows "db_calls (db (fst (createTransaction fault now transactionData st)))
       = db_calls (db st) @ [InsertTransaction (ti_product_id transactionData)
                               (ti_type transactionData) (ti_amount transactionData)]"
  using assms
  by (auto simp: createTransaction_def transactions_insert_def issue_def Let_def
      split: option.splits)

lemma out_of_nothing_submits_zero:
  assumes "quantity product = 0" and "0 \<le> adjustAmount"
  shows "ti_amount (adjust_tx product Subtract adjustAmount memo created) = 0"
  using assms by (simp add: adjust_tx_def actualAmount_def)


subsection \<open>Delete Transaction\<close>

lemma deleteTransaction_no_product:
  assumes "user st = Some uid"
    and "find (\<lambda>t. t_id t = transactionId) (transactions st) = Some tx"
    and "find (\<lambda>p. p_id p = product_id tx) (products st) = None"
  shows "deleteTransaction faultU faultD faultR now transactionId st =
     (case faultD of
        Some e \<Rightarrow> (st\<lparr>db := issue (DeleteTransaction transactionId) (db st)\<rparr>,
                   \<lparr>success = False, del_error = Some DeleteFailedRolledBack\<rparr>)
      | None \<Rightarrow>
          (st\<lparr>db := (issue (DeleteTransaction transactionId) (db st))
                   \<lparr>db_transactions :=
                      filter (\<lambda>t. t_id t \<noteq> transactionId) (db_transactions (db st))\<rparr>,
              transactions := filter (\<lambda>t. t_id t \<noteq> transactionId) (transactions st),
              allTransactions := filter (\<lambda>t. t_id t \<noteq> transactionId) (allTransactions st)\<rparr>,
           \<lparr>success = True, del_error = None\<rparr>))"
  using assms
  by (simp add: deleteTransaction_def transactions_delete_def Let_def split: option.splits)

text \<open>
  Claim C10. When \<^verbatim>\<open>deleteTransaction\<close> is called by a signed-in user with the
  identifier of a transaction of the snapshot whose product is not in the products
  snapshot, the only request issued to the store is the deletion of the transaction row:
  no product quantity is written, in the store or in the snapshot. When that deletion
  goes through the row is gone from the store and from the snapshots and the operation
  reports success with no error.
\<close>

theorem delete_transaction_without_product:
  assumes "user st = Some uid"
    and "find (\<lambda>t. t_id t = transactionId) (transactions st) = Some tx"
    and "find (\<lambda>p. p_id p = product_id tx) (products st) = None"
    and "r = deleteTransaction faultU faultD faultR now transactionId st"
  shows "db_calls (db (fst r)) = db_calls (db st) @ [DeleteTransaction transactionId]
       \<and> db_products (db (fst r)) = db_products (db st)
       \<and> products (fst r) = products st
       \<and> (faultD = None \<longrightarrow>
            snd r = \<lparr>success = True, del_error = None\<rparr>
          \<and> db_transactions (db (fst r))
              = filter (\<lambda>t. t_id t \<noteq> transactionId) (db_transactions (db st))
          \<and> transactions (fst r) = filter (\<lambda>t. t_id t \<noteq> transactionId) (transactions st)
          \<and> allTransactions (fst r)
              = filter (\<lambda>t. t_id t \<noteq> transactionId) (allTransactions st))"
  unfolding assms(4) deleteTransaction_no_product [OF assms(1-3)]
  by (simp add: issue_def split: option.splits)

theorem delete_transaction_without_product_witness:
  "snd (deleteTransaction None None None 100 1 orphaned) = \<lparr>success = True, del_error = None\<rparr>
   \<and> db_transactions (db (fst (deleteTransaction None None None 100 1 orphaned))) = []
   \<and> db_calls (db (fst (deleteTransaction None None None 100 1 orphaned)))
       = [InsertProduct 10, InsertTransaction 0 TxIn 10, DeleteTransaction 1]
   \<and> map quantity (db_products (db (fst (deleteTransaction None None None 100 1 orphaned)))) = [10]"
proof -
  have u: "user orphaned = Some ''salon''" by (simp add: orphaned_def stocked_eq)
  have t: "find (\<lambda>t. t_id t = 1) (transactions orphaned)
             = Some ((mk_tx 1 0 TxIn 10 0)\<lparr>t_notes := ''initial stock''\<rparr>)"
    by (simp add: orphaned_def stocked_eq mk_tx_def)
  have p: "find (\<lambda>p. p_id p = product_id ((mk_tx 1 0 TxIn 10 0)\<lparr>t_notes := ''initial stock''\<rparr>))
             (products orphaned) = None"
    by (simp add: orphaned_def)
  from delete_transaction_without_product [OF u t p refl, where faultD = None]
  show ?thesis
    by (simp add: orphaned_def stocked_eq mk_tx_def mk_product_def)
qed


lemma deleteTransaction_with_product:
  assumes "user st = Some uid"
    and "find (\<lambda>t. t_id t = transactionId) (transactions st) = Some tx"
    and "find (\<lambda>p. p_id p = product_id tx) (products st) = Some p"
    and "newQuantity = max 0 (quantity p + (if ttype tx = TxIn then - amount tx else amount tx))"
  shows "deleteTransaction faultU faultD faultR now transactionId st =
     (case products_update_quantity faultU now (p_id p) newQuantity (db st) of
        (d1, Some e) \<Rightarrow>
          (st\<lparr>db := d1\<rparr>, \<lparr>success = False, del_error = Some RestoreFailedNotDeleted\<rparr>)
      | (d1, None) \<Rightarrow>
          (case transactions_delete faultD transactionId d1 of
             (d2, Some e) \<Rightarrow>
               (st\<lparr>db := fst (products_update_quantity faultR now (p_id p) (quantity p) d2),
                   products := set_quantity (p_id p) (quantity p)
                                 (set_quantity (p_id p) newQuantity (products st))\<rparr>,
                \<lparr>success = False, del_error = Some DeleteFailedRolledBack\<rparr>)
           | (d2, None) \<Rightarrow>
               (st\<lparr>db := d2,
                   products := set_quantity (p_id p) newQuantity (products st),
                   transactions := filter (\<lambda>t. t_id t \<noteq> transactionId) (transactions st),
                   allTransactions :=
                     filter (\<lambda>t. t_id t \<noteq> transactionId) (allTransactions st)\<rparr>,
                \<lparr>success = True, del_error = None\<rparr>)))"
  using assms
  by (simp add: deleteTransaction_def Let_def split: option.splits prod.splits)

text \<open>
  Claim C4: deleting an \<^verbatim>\<open>in\<close> transaction of amount \<open>A\<close> sets the product's quantity
  to \<open>max 0 (quantity - A)\<close>, deleting an \<^verbatim>\<open>out\<close> transaction to \<open>quantity + A\<close>; if
  the compensating quantity write fails the row is not deleted, and if the row delete
  fails the pre-compensation quantity is restored, so that a failed deletion leaves the
  quantity unchanged. The source issues the restoring write without reading its error,
  where the error of the compensating write is read, and sets the snapshot back
  whatever happened. The product holds 10 units and its initial \<^verbatim>\<open>in\<close> transaction of
  10 is deleted: the compensating write stores 0, the row delete fails and the restoring
  write fails as well. The store keeps 0 units where it held 10, the snapshot shows 10,
  the row is still there, and the user is told that the stock was rolled back.
\<close>

theorem delete_restore_unchecked:
  "quantity_of 0 (db_products (db stocked)) = Some 10
   \<and> snd (deleteTransaction None (Some offline) (Some offline) 100 1 stocked)
       = \<lparr>success = False, del_error = Some DeleteFailedRolledBack\<rparr>
   \<and> db_calls (db (fst (deleteTransaction None (Some offline) (Some offline) 100 1 stocked)))
       = [InsertProduct 10, InsertTransaction 0 TxIn 10, UpdateProductQuantity 0 0,
          DeleteTransaction 1, UpdateProductQuantity 0 10]
   \<and> quantity_of 0 (db_products (db (fst
         (deleteTransaction None (Some offline) (Some offline) 100 1 stocked)))) = Some 0
   \<and> quantity_of 0 (products (fst
         (deleteTransaction None (Some offline) (Some offline) 100 1 stocked))) = Some 10
   \<and> map t_id (db_transactions (db (fst
         (deleteTransaction None (Some offline) (Some offline) 100 1 stocked)))) = [1]"
  by (simp add: deleteTransaction_def stocked_eq store_defs sample_defs Let_def
      quantity_of_def find_product_def)

text \<open>Whatever becomes of the restoring write, a failed row delete is followed by it,
  leaves the ledger as it was and is reported. On the other paths the deletion does what
  the claim says, for a product whose snapshot row holds the stored quantity: the
  compensated quantity is written and the row removed; a failed compensating write
  changes nothing and no delete is issued; a failed row delete followed by an accepted
  restoring write leaves the quantities and the ledger as they were.\<close>

lemma delete_failure_reported:
  assumes "user st = Some uid"
    and "find (\<lambda>t. t_id t = transactionId) (transactions st) = Some tx"
    and "find (\<lambda>p. p_id p = product_id tx) (products st) = Some p"
    and "newQuantity = max 0 (quantity p + (if ttype tx = TxIn then - amount tx else amount tx))"
    and "r = deleteTransaction None (Some e) faultR now transactionId st"
  shows "snd r = \<lparr>success = False, del_error = Some DeleteFailedRolledBack\<rparr>
       \<and> db_calls (db (fst r))
           = db_calls (db st) @ [UpdateProductQuantity (p_id p) newQuantity,
                                 DeleteTransaction transactionId,
                                 UpdateProductQuantity (p_id p) (quantity p)]
       \<and> db_transactions (db (fst r)) = db_transactions (db st)"
proof -
  have nq: "0 \<le> newQuantity" unfolding assms(4) by simp
  show ?thesis
    unfolding assms(5) deleteTransaction_with_product [OF assms(1-4)] using nq
    by (simp add: products_update_quantity_def transactions_delete_def issue_def Let_def
        split: option.splits)
qed

lemma delete_transaction_paths:
  assumes "user st = Some uid"
    and "find (\<lambda>t. t_id t = transactionId) (transactions st) = Some tx"
    and "find (\<lambda>p. p_id p = product_id tx) (products st) = Some p"
    and "newQuantity = max 0 (quantity p + (if ttype tx = TxIn then - amount tx else amount tx))"
    and "r = deleteTransaction faultU faultD faultR now transactionId st"
  shows "(ttype tx = TxIn \<longrightarrow> newQuantity = max 0 (quantity p - amount tx))
       \<and> (ttype tx = TxOut \<longrightarrow> newQuantity = max 0 (quantity p + amount tx))
       \<and> (faultU = None \<and> faultD = None \<longrightarrow>
            success (snd r)
          \<and> db_products (db (fst r))
              = map (\<lambda>x. if p_id x = p_id p then x\<lparr>quantity := newQuantity, p_updated_at := now\<rparr>
                         else x) (db_products (db st))
          \<and> products (fst r) = set_quantity (p_id p) newQuantity (products st)
          \<and> db_transactions (db (fst r))
              = filter (\<lambda>t. t_id t \<noteq> transactionId) (db_transactions (db st)))
       \<and> (faultU \<noteq> None \<longrightarrow>
            \<not> success (snd r)
          \<and> db_transactions (db (fst r)) = db_transactions (db st)
          \<and> db_products (db (fst r)) = db_products (db st)
          \<and> products (fst r) = products st
          \<and> db_calls (db (fst r))
              = db_calls (db st) @ [UpdateProductQuantity (p_id p) newQuantity])
       \<and> (faultU = None \<and> faultD \<noteq> None \<and> faultR = None \<and> 0 \<le> quantity p
          \<and> (\<forall>x\<in>set (db_products (db st)). p_id x = p_id p \<longrightarrow> quantity x = quantity p)
          \<and> (\<forall>x\<in>set (products st). p_id x = p_id p \<longrightarrow> quantity x = quantity p) \<longrightarrow>
            \<not> success (snd r)
          \<and> map quantity (db_products (db (fst r))) = map quantity (db_products (db st))
          \<and> map quantity (products (fst r)) = map quantity (products st)
          \<and> db_transactions (db (fst r)) = db_transactions (db st))"
proof -
  have nq: "0 \<le> newQuantity" unfolding assms(4) by simp
  have a: "ttype tx = TxIn \<longrightarrow> newQuantity = max 0 (quantity p - amount tx)"
    unfolding assms(4) by simp
  have b: "ttype tx = TxOut \<longrightarrow> newQuantity = max 0 (quantity p + amount tx)"
    unfolding assms(4) by simp
  note D = deleteTransaction_with_product [OF assms(1-4)]
  have c: "faultU = None \<and> faultD = None \<longrightarrow>
            success (snd r)
          \<and> db_products (db (fst r))
              = map (\<lambda>x. if p_id x = p_id p then x\<lparr>quantity := newQuantity, p_updated_at := now\<rparr>
                         else x) (db_products (db st))
          \<and> products (fst r) = set_quantity (p_id p) newQuantity (products st)
          \<and> db_transactions (db (fst r))
              = filter (\<lambda>t. t_id t \<noteq> transactionId) (db_transactions (db st))"
    unfolding assms(5) D using nq
    by (simp add: products_update_quantity_def transactions_delete_def issue_def Let_def)
  have d: "faultU \<noteq> None \<longrightarrow>
            \<not> success (snd r)
          \<and> db_transactions (db (fst r)) = db_transactions (db st)
          \<and> db_products (db (fst r)) = db_products (db st)
          \<and> products (fst r) = products st
          \<and> db_calls (db (fst r))
              = db_calls (db st) @ [UpdateProductQuantity (p_id p) newQuantity]"
    unfolding assms(5) D
    by (auto simp add: products_update_quantity_def issue_def Let_def)
  have e: "faultU = None \<and> faultD \<noteq> None \<and> faultR = None \<and> 0 \<le> quantity p
          \<and> (\<forall>x\<in>set (db_products (db st)). p_id x = p_id p \<longrightarrow> quantity x = quantity p)
          \<and> (\<forall>x\<in>set (products st). p_id x = p_id p \<longrightarrow> quantity x = quantity p) \<longrightarrow>
            \<not> success (snd r)
          \<and> map quantity (db_products (db (fst r))) = map quantity (db_products (db st))
          \<and> map quantity (products (fst r)) = map quantity (products st)
          \<and> db_transactions (db (fst r)) = db_transactions (db st)"
    unfolding assms(5) D using nq
    by (auto simp add: products_update_quantity_def transactions_delete_def issue_def Let_def
        quantity_restored quantity_restored_local)
  show ?thesis using a b c d e by blast
qed

subsection \<open>The ledger invariant\<close>

text \<open>
  Claim C1: over every sequence of Create Product and Adjust Stock operations in which no
  store write fails, a product's quantity is its initial quantity plus the \<^verbatim>\<open>in\<close>
  amounts minus the \<^verbatim>\<open>out\<close> amounts of its transactions, the initial quantity being
  recorded as an \<^verbatim>\<open>in\<close> transaction. The source breaks this when the date field of the
  adjustment page holds no valid date. A product is created with 10 units and 5 are
  added with the date field cleared: the quantity write stores 15, then
  \<^verbatim>\<open>new Date(customDate).toISOString()\<close> throws before \<^verbatim>\<open>createTransaction\<close> is
  called, and the \<^verbatim>\<open>catch\<close> block shows the error without rolling the quantity back.
  Both requests issued succeeded, the quantity is 15 and the ledger holds the initial
  10 only.
\<close>

theorem invalid_date_breaks_ledger:
  "snd (demo_adjust None None None Add 5 None) = Alerted InvalidTimeValue
   \<and> db_calls (db (fst (demo_adjust None None None Add 5 None)))
       = [InsertProduct 10, InsertTransaction 0 TxIn 10, UpdateProductQuantity 0 15]
   \<and> quantity_of 0 (db_products (db (fst (demo_adjust None None None Add 5 None)))) = Some 15
   \<and> map amount (db_transactions (db (fst (demo_adjust None None None Add 5 None)))) = [10]
   \<and> ledger_net 0 (db_transactions (db (fst (demo_adjust None None None Add 5 None)))) = 10"
  by (simp add: demo_adjust_def stocked_eq eval_defs quantity_of_def find_product_def
      ledger_net_def ledger_of_def sum_in_def sum_out_def)

text \<open>With a valid date in every adjustment the invariant holds: the rest of this
  subsection proves it for every sequence, from any signed-in or signed-out start with
  an empty store.\<close>

lemma ledger_net_append:
  "ledger_net pid (ts @ [t]) = ledger_net pid ts + (if product_id t = pid then signed_amount t else 0)"
  by (cases "ttype t") (simp_all add: ledger_net_def ledger_of_def sum_in_def sum_out_def signed_amount_def)

lemma ledger_net_fresh:
  "\<forall>t\<in>set ts. product_id t < n \<Longrightarrow> ledger_net n ts = 0"
  by (induction ts) (auto simp: ledger_net_def ledger_of_def sum_in_def sum_out_def)

lemma clamp_identity:
  "finalStock operation c a = c + (if operation = Add then actualAmount operation c a
                                    else - actualAmount operation c a)"
  by (cases operation) (auto simp: finalStock_def actualAmount_def)

lemma proj_rewritten:
  "map (\<lambda>p. (p_id p, quantity p))
     (map (\<lambda>p. if p_id p = pid then p\<lparr>quantity := q, p_updated_at := now\<rparr> else p) ps)
   = map (\<lambda>(i, x). (i, if i = pid then q else x)) (map (\<lambda>p. (p_id p, quantity p)) ps)"
  by (induction ps) simp_all

lemma proj_set_quantity:
  "map (\<lambda>p. (p_id p, quantity p)) (set_quantity pid q ps)
   = map (\<lambda>(i, x). (i, if i = pid then q else x)) (map (\<lambda>p. (p_id p, quantity p)) ps)"
  unfolding set_quantity_def by (induction ps) simp_all

lemma find_product_proj:
  "find_product pid ps = Some p \<Longrightarrow> (pid, quantity p) \<in> set (map (\<lambda>p. (p_id p, quantity p)) ps)"
  unfolding find_product_def by (induction ps) (auto split: if_splits)

lemma update_fault_free_positive:
  "0 \<le> q \<Longrightarrow> snd (updateProductQuantity None now pid q st) = True"
  by (simp add: updateProductQuantity_def products_update_quantity_def Let_def)

lemma update_check:
  "updateProductQuantity None now pid q st = (st1, True) \<Longrightarrow>
     pid \<in> p_id ` set (db_products (db st)) \<Longrightarrow> 0 \<le> q"
  by (auto simp: updateProductQuantity_def products_update_quantity_def Let_def split: if_splits)


lemma consistentD:
  assumes "ledger_consistent st"
  shows "map (\<lambda>p. (p_id p, quantity p)) (products st)
       = map (\<lambda>p. (p_id p, quantity p)) (db_products (db st))"
    and "\<And>p. p \<in> set (db_products (db st)) \<Longrightarrow>
           quantity p = ledger_net (p_id p) (db_transactions (db st))"
    and "\<And>p. p \<in> set (db_products (db st)) \<Longrightarrow> 0 \<le> quantity p"
    and "\<And>p. p \<in> set (db_products (db st)) \<Longrightarrow> p_id p < db_next_id (db st)"
    and "\<And>t. t \<in> set (db_transactions (db st)) \<Longrightarrow> product_id t < db_next_id (db st)"
  using assms unfolding ledger_consistent_def by blast+

lemma consistentI:
  assumes "map (\<lambda>p. (p_id p, quantity p)) (products st)
       = map (\<lambda>p. (p_id p, quantity p)) (db_products (db st))"
    and "\<And>p. p \<in> set (db_products (db st)) \<Longrightarrow>
           quantity p = ledger_net (p_id p) (db_transactions (db st))"
    and "\<And>p. p \<in> set (db_products (db st)) \<Longrightarrow> 0 \<le> quantity p"
    and "\<And>p. p \<in> set (db_products (db st)) \<Longrightarrow> p_id p < db_next_id (db st)"
    and "\<And>t. t \<in> set (db_transactions (db st)) \<Longrightarrow> product_id t < db_next_id (db st)"
  shows "ledger_consistent st"
  using assms unfolding ledger_consistent_def by blast

lemma consistent_issue:
  assumes inv: "ledger_consistent st"
  shows "ledger_consistent (st\<lparr>db := issue c (db st)\<rparr>)"
proof (rule consistentI)
  show "map (\<lambda>p. (p_id p, quantity p)) (products (st\<lparr>db := issue c (db st)\<rparr>))
       = map (\<lambda>p. (p_id p, quantity p)) (db_products (db (st\<lparr>db := issue c (db st)\<rparr>)))"
    using consistentD(1) [OF inv] by (simp add: issue_def)
next
  fix p assume "p \<in> set (db_products (db (st\<lparr>db := issue c (db st)\<rparr>)))"
  then have p: "p \<in> set (db_products (db st))" by (simp add: issue_def)
  show "quantity p = ledger_net (p_id p) (db_transactions (db (st\<lparr>db := issue c (db st)\<rparr>)))"
    using consistentD(2) [OF inv p] by (simp add: issue_def)
  show "0 \<le> quantity p" using consistentD(3) [OF inv p] .
  show "p_id p < db_next_id (db (st\<lparr>db := issue c (db st)\<rparr>))"
    using consistentD(4) [OF inv p] by (simp add: issue_def)
next
  fix t assume "t \<in> set (db_transactions (db (st\<lparr>db := issue c (db st)\<rparr>)))"
  then have "t \<in> set (db_transactions (db st))" by (simp add: issue_def)
  then show "product_id t < db_next_id (db (st\<lparr>db := issue c (db st)\<rparr>))"
    using consistentD(5) [OF inv] by (simp add: issue_def)
qed

lemma consistent_current:
  assumes inv: "ledger_consistent st" and f: "find_product pid (products st) = Some product"
  shows "quantity product = ledger_net pid (db_transactions (db st))"
    and "0 \<le> quantity product"
    and "pid \<in> p_id ` set (db_products (db st))"
    and "pid < db_next_id (db st)"
proof -
  have "(pid, quantity product) \<in> set (map (\<lambda>p. (p_id p, quantity p)) (db_products (db st)))"
    using find_product_proj [OF f] consistentD(1) [OF inv] by simp
  then obtain x where x: "x \<in> set (db_products (db st))" "p_id x = pid"
    "quantity x = quantity product" by auto
  show "quantity product = ledger_net pid (db_transactions (db st))"
    using consistentD(2) [OF inv x(1)] x(2,3) by simp
  show "0 \<le> quantity product" using consistentD(3) [OF inv x(1)] x(3) by simp
  show "pid \<in> p_id ` set (db_products (db st))" using x(1,2) by force
  show "pid < db_next_id (db st)" using consistentD(4) [OF inv x(1)] x(2) by simp
qed

lemma find_product_id: "find_product pid ps = Some p \<Longrightarrow> p_id p = pid"
  unfolding find_product_def by (induction ps) (auto split: if_splits)

lemma rewritten_row:
  assumes "p \<in> set (map (\<lambda>p. if p_id p = pid then p\<lparr>quantity := q, p_updated_at := n\<rparr> else p) ps)"
  obtains x where "x \<in> set ps" "p_id p = p_id x"
    "quantity p = (if p_id x = pid then q else quantity x)"
  using assms by (auto split: if_splits)

lemma consistent_restored:
  assumes inv: "ledger_consistent st"
    and c: "c = ledger_net pid (db_transactions (db st))" "0 \<le> c"
    and dbp: "db_products (db st3) =
       map (\<lambda>p. if p_id p = pid then p\<lparr>quantity := c, p_updated_at := n2\<rparr> else p)
         (map (\<lambda>p. if p_id p = pid then p\<lparr>quantity := f, p_updated_at := n1\<rparr> else p)
            (db_products (db st)))"
    and lp: "products st3 = set_quantity pid c (set_quantity pid f (products st))"
    and tx: "db_transactions (db st3) = db_transactions (db st)"
    and nx: "db_next_id (db st3) = db_next_id (db st)"
  shows "ledger_consistent st3"
proof (rule consistentI)
  show "map (\<lambda>p. (p_id p, quantity p)) (products st3)
       = map (\<lambda>p. (p_id p, quantity p)) (db_products (db st3))"
    unfolding dbp lp proj_rewritten proj_set_quantity consistentD(1) [OF inv] by (rule refl)
next
  fix p assume "p \<in> set (db_products (db st3))"
  then obtain y where y: "y \<in> set (map (\<lambda>p. if p_id p = pid then p\<lparr>quantity := f, p_updated_at := n1\<rparr> else p)
            (db_products (db st)))" "p_id p = p_id y"
    "quantity p = (if p_id y = pid then c else quantity y)"
    unfolding dbp by (rule rewritten_row)
  from y(1) obtain x where x: "x \<in> set (db_products (db st))" "p_id y = p_id x"
    "quantity y = (if p_id x = pid then f else quantity x)"
    by (rule rewritten_row)
  have q: "quantity p = (if p_id x = pid then c else quantity x)" "p_id p = p_id x"
    using y x by auto
  show "quantity p = ledger_net (p_id p) (db_transactions (db st3))"
    unfolding tx using q c(1) consistentD(2) [OF inv x(1)] by auto
  show "0 \<le> quantity p" using q c(2) consistentD(3) [OF inv x(1)] by auto
  show "p_id p < db_next_id (db st3)" unfolding nx using q consistentD(4) [OF inv x(1)] by auto
next
  fix t assume "t \<in> set (db_transactions (db st3))"
  then show "product_id t < db_next_id (db st3)"
    unfolding tx nx using consistentD(5) [OF inv] by blast
qed

lemma consistent_adjusted:
  assumes inv: "ledger_consistent st"
    and c: "c = ledger_net pid (db_transactions (db st))"
    and f: "0 \<le> f" "f = c + signed_amount t"
    and t: "product_id t = pid" "pid < db_next_id (db st)"
    and dbp: "db_products (db st2) =
         map (\<lambda>p. if p_id p = pid then p\<lparr>quantity := f, p_updated_at := n1\<rparr> else p)
            (db_products (db st))"
    and lp: "products st2 = set_quantity pid f (products st)"
    and tx: "db_transactions (db st2) = db_transactions (db st) @ [t]"
    and nx: "db_next_id (db st2) = Suc (db_next_id (db st))"
  shows "ledger_consistent st2"
proof (rule consistentI)
  show "map (\<lambda>p. (p_id p, quantity p)) (products st2)
       = map (\<lambda>p. (p_id p, quantity p)) (db_products (db st2))"
    unfolding dbp lp proj_rewritten proj_set_quantity consistentD(1) [OF inv] by (rule refl)
next
  fix p assume "p \<in> set (db_products (db st2))"
  then obtain x where x: "x \<in> set (db_products (db st))" "p_id p = p_id x"
    "quantity p = (if p_id x = pid then f else quantity x)"
    unfolding dbp by (rule rewritten_row)
  show "quantity p = ledger_net (p_id p) (db_transactions (db st2))"
    unfolding tx ledger_net_append using x(2,3) c f(2) t(1) consistentD(2) [OF inv x(1)] by auto
  show "0 \<le> quantity p" using x(3) f(1) consistentD(3) [OF inv x(1)] by auto
  show "p_id p < db_next_id (db st2)" unfolding nx using x(2) consistentD(4) [OF inv x(1)] by auto
next
  fix u assume "u \<in> set (db_transactions (db st2))"
  then have "u \<in> set (db_transactions (db st)) \<or> u = t" unfolding tx by auto
  then show "product_id u < db_next_id (db st2)"
    unfolding nx using consistentD(5) [OF inv] t by (auto simp: less_Suc_eq)
qed

lemma adjust_preserves:
  assumes inv: "ledger_consistent st"
    and fp: "find_product pid (products st) = Some product"
  shows "ledger_consistent (fst (handleConfirmAction None None None now False product operation
           adjustAmount memo (Some customDate) st))"
proof -
  have pid: "p_id product = pid" using fp by (rule find_product_id)
  note cur = consistent_current [OF inv fp]
  let ?f = "finalStock operation (quantity product) adjustAmount"
  obtain st1 b where u: "updateProductQuantity None now pid ?f st = (st1, b)"
    by (cases "updateProductQuantity None now pid ?f st") auto
  show ?thesis
  proof (cases b)
    case False
    then have u': "updateProductQuantity None now pid ?f st = (st1, False)"
      using u by simp
    have "st1 = st\<lparr>db := issue (UpdateProductQuantity pid ?f) (db st)\<rparr>"
      using u' by (rule updateProductQuantity_False)
    then show ?thesis using u' pid
      by (simp add: handleConfirmAction_def consistent_issue [OF inv])
  next
    case True
    then have u': "updateProductQuantity None now pid ?f st = (st1, True)"
      using u by simp
    note U = updateProductQuantity_True [OF u']
    have f0: "0 \<le> ?f" using update_check [OF u' cur(3)] .
    let ?ti = "adjust_tx product operation adjustAmount memo customDate"
    obtain st2 r where c: "createTransaction None now ?ti st1 = (st2, r)"
      by (cases "createTransaction None now ?ti st1") auto
    show ?thesis
    proof (cases r)
      case None
      then have c': "createTransaction None now ?ti st1 = (st2, None)" using c by simp
      note C = createTransaction_None_facts [OF c']
      have nx: "db_next_id (db st2) = db_next_id (db st1)"
        using createTransaction_None [OF c'] by (auto simp: issue_def)
      obtain st3 where r: "updateProductQuantity None now pid (quantity product) st2 = (st3, True)"
        using update_fault_free_positive [OF cur(2), of now pid st2]
        by (cases "updateProductQuantity None now pid (quantity product) st2") auto
      note R = updateProductQuantity_True [OF r]
      have "ledger_consistent st3"
        by (rule consistent_restored [OF inv cur(1) cur(2), where ?n1.0 = now and ?n2.0 = now
              and f = ?f])
          (simp_all add: R C U nx)
      moreover have "fst (handleConfirmAction None None None now False product operation
           adjustAmount memo (Some customDate) st) = st3"
        using u' c' r pid by (simp add: handleConfirmAction_def)
      ultimately show ?thesis by simp
    next
      case (Some t)
      then have c': "createTransaction None now ?ti st1 = (st2, Some t)" using c by simp
      note C = createTransaction_Some [OF c']
      have sg: "?f = quantity product + signed_amount t"
        using C(3,4) clamp_identity [of operation "quantity product" adjustAmount]
        by (cases operation) (simp_all add: adjust_tx_def signed_amount_def)
      have pt: "product_id t = pid" using C(2) pid by (simp add: adjust_tx_def)
      have "ledger_consistent st2"
        by (rule consistent_adjusted [OF inv cur(1) f0 sg pt cur(4), where ?n1.0 = now])
          (simp_all add: C U)
      moreover have "fst (handleConfirmAction None None None now False product operation
           adjustAmount memo (Some customDate) st) = st2"
        using u' c' pid by (simp add: handleConfirmAction_def)
      ultimately show ?thesis by simp
    qed
  qed
qed


lemma createProduct_rejected:
  assumes "user st = None \<or> \<not> configured st"
  shows "fst (createProduct None None now productData st) = st"
  using assms by (auto simp: createProduct_def split: option.splits)

lemma createProduct_negative:
  assumes "user st = Some uid" "configured st" "num_or (pi_quantity productData) 0 < 0"
  shows "fst (createProduct None None now productData st)
     = st\<lparr>db := issue (InsertProduct (num_or (pi_quantity productData) 0)) (db st)\<rparr>"
  using assms by (simp add: createProduct_def products_insert_def Let_def)

lemma createProduct_zero:
  assumes "user st = Some uid" "configured st" "num_or (pi_quantity productData) 0 = 0"
    and "st' = fst (createProduct None None now productData st)"
  shows "\<exists>r. p_id r = db_next_id (db st) \<and> quantity r = 0
           \<and> db_products (db st') = db_products (db st) @ [r]
           \<and> products st' = products st @ [r]
           \<and> db_transactions (db st') = db_transactions (db st)
           \<and> db_next_id (db st') = Suc (db_next_id (db st))"
  using assms by (simp add: createProduct_def products_insert_def issue_def Let_def)

lemma createProduct_positive:
  assumes "user st = Some uid" "configured st" "0 < num_or (pi_quantity productData) 0"
    and "st' = fst (createProduct None None now productData st)"
  shows "\<exists>r t. p_id r = db_next_id (db st) \<and> quantity r = num_or (pi_quantity productData) 0
           \<and> db_products (db st') = db_products (db st) @ [r]
           \<and> products st' = products st @ [r]
           \<and> db_transactions (db st') = db_transactions (db st) @ [t]
           \<and> product_id t = db_next_id (db st) \<and> ttype t = TxIn
           \<and> amount t = num_or (pi_quantity productData) 0
           \<and> db_next_id (db st') = Suc (Suc (db_next_id (db st)))"
  using assms
  by (simp add: createProduct_def products_insert_def transactions_insert_def issue_def Let_def)

lemma consistent_created:
  assumes inv: "ledger_consistent st"
    and r: "p_id r = db_next_id (db st)" "0 \<le> quantity r"
    and dbp: "db_products (db st') = db_products (db st) @ [r]"
    and lp: "products st' = products st @ [r]"
    and tx: "db_transactions (db st') = db_transactions (db st) @ ws"
    and ws: "\<forall>t\<in>set ws. product_id t = db_next_id (db st)"
      "ledger_net (db_next_id (db st)) ws = quantity r"
    and nx: "db_next_id (db st) < db_next_id (db st')"
  shows "ledger_consistent st'"
proof (rule consistentI)
  show "map (\<lambda>p. (p_id p, quantity p)) (products st')
       = map (\<lambda>p. (p_id p, quantity p)) (db_products (db st'))"
    unfolding dbp lp using consistentD(1) [OF inv] by simp
next
  have split: "\<And>i. ledger_net i (db_transactions (db st) @ ws)
      = ledger_net i (db_transactions (db st)) + ledger_net i ws"
    by (simp add: ledger_net_def ledger_of_def sum_in_def sum_out_def)
  have other: "\<And>i. i \<noteq> db_next_id (db st) \<Longrightarrow> ledger_net i ws = 0"
    using ws(1) by (induction ws) (auto simp: ledger_net_def ledger_of_def sum_in_def sum_out_def)
  have fresh: "ledger_net (db_next_id (db st)) (db_transactions (db st)) = 0"
    using consistentD(5) [OF inv] by (intro ledger_net_fresh) blast
  fix p assume "p \<in> set (db_products (db st'))"
  then consider "p \<in> set (db_products (db st))" | "p = r" unfolding dbp by auto
  then show "quantity p = ledger_net (p_id p) (db_transactions (db st'))"
  proof cases
    case 1
    then have "p_id p \<noteq> db_next_id (db st)" using consistentD(4) [OF inv 1] by simp
    then show ?thesis unfolding tx split using other consistentD(2) [OF inv 1] by simp
  next
    case 2
    then show ?thesis unfolding tx split using r(1) ws(2) fresh by simp
  qed
  from \<open>p \<in> set (db_products (db st'))\<close>
  consider "p \<in> set (db_products (db st))" | "p = r" unfolding dbp by auto
  then show "0 \<le> quantity p" using consistentD(3) [OF inv] r(2) by cases auto
  from \<open>p \<in> set (db_products (db st'))\<close>
  consider "p \<in> set (db_products (db st))" | "p = r" unfolding dbp by auto
  then show "p_id p < db_next_id (db st')"
  proof cases
    case 1
    then show ?thesis using consistentD(4) [OF inv 1] nx by simp
  next
    case 2
    then show ?thesis using r(1) nx by simp
  qed
next
  fix t assume "t \<in> set (db_transactions (db st'))"
  then consider "t \<in> set (db_transactions (db st))" | "t \<in> set ws" unfolding tx by auto
  then show "product_id t < db_next_id (db st')"
  proof cases
    case 1
    then show ?thesis using consistentD(5) [OF inv 1] nx by simp
  next
    case 2
    then show ?thesis using ws(1) nx by simp
  qed
qed

lemma create_preserves:
  assumes inv: "ledger_consistent st"
  shows "ledger_consistent (fst (createProduct None None now productData st))"
proof (cases "user st = None \<or> \<not> configured st")
  case True
  then show ?thesis using inv by (simp only: createProduct_rejected)
next
  case False
  then obtain uid where u: "user st = Some uid" "configured st" by auto
  let ?q = "num_or (pi_quantity productData) 0"
  let ?st' = "fst (createProduct None None now productData st)"
  consider "?q < 0" | "?q = 0" | "0 < ?q" by linarith
  then show ?thesis
  proof cases
    case 1
    show ?thesis unfolding createProduct_negative [OF u 1] using inv by (rule consistent_issue)
  next
    case 2
    from createProduct_zero [OF u 2 refl] obtain r where
      r: "p_id r = db_next_id (db st)" "quantity r = 0"
      "db_products (db ?st') = db_products (db st) @ [r]"
      "products ?st' = products st @ [r]"
      "db_transactions (db ?st') = db_transactions (db st)"
      "db_next_id (db ?st') = Suc (db_next_id (db st))" by blast
    show ?thesis
      by (rule consistent_created [OF inv r(1) _ r(3) r(4), where ws = "[]"])
        (simp_all add: r ledger_net_def ledger_of_def sum_in_def sum_out_def)
  next
    case 3
    from createProduct_positive [OF u 3 refl] obtain r t where
      r: "p_id r = db_next_id (db st)" "quantity r = ?q"
      "db_products (db ?st') = db_products (db st) @ [r]"
      "products ?st' = products st @ [r]"
      "db_transactions (db ?st') = db_transactions (db st) @ [t]"
      "product_id t = db_next_id (db st)" "ttype t = TxIn" "amount t = ?q"
      "db_next_id (db ?st') = Suc (Suc (db_next_id (db st)))" by blast
    show ?thesis
      by (rule consistent_created [OF inv r(1) _ r(3) r(4), where ws = "[t]"])
        (use 3 in \<open>simp_all add: r ledger_net_def ledger_of_def sum_in_def sum_out_def\<close>)
  qed
qed

lemma step_preserves:
  "ledger_consistent st \<Longrightarrow> ledger_consistent (step x st)"
proof (cases x)
  case (CreateProduct now productData)
  assume "ledger_consistent st"
  then show ?thesis unfolding CreateProduct step.simps by (rule create_preserves)
next
  case (AdjustStock now productId operation adjustAmount memo customDate)
  assume inv: "ledger_consistent st"
  have res: "resolve_product (Some productId) None (products st)
      = find_product productId (products st)"
    by (simp add: resolve_product_def split: option.splits)
  show ?thesis
  proof (cases "find_product productId (products st)")
    case None
    then show ?thesis using inv unfolding AdjustStock by (simp add: res)
  next
    case (Some product)
    then show ?thesis using adjust_preserves [OF inv Some] unfolding AdjustStock
      by (simp add: res)
  qed
qed

lemma run_preserves:
  "ledger_consistent st \<Longrightarrow> ledger_consistent (run xs st)"
  unfolding run_def by (induction xs arbitrary: st) (simp_all add: step_preserves)

lemma consistent_initially:
  "ledger_consistent \<lparr>user = u, configured = c, warehouseEnabled = w, currentWarehouse = cw,
     products = [], transactions = [], allTransactions = [], db = empty_db\<rparr>"
  by (simp add: ledger_consistent_def empty_db_def)

lemma ledger_invariant_with_valid_dates:
  assumes "st = run xs \<lparr>user = u, configured = c, warehouseEnabled = w, currentWarehouse = cw,
     products = [], transactions = [], allTransactions = [], db = empty_db\<rparr>"
  shows "(\<forall>p\<in>set (db_products (db st)).
            quantity p = sum_in (ledger_of (p_id p) (db_transactions (db st)))
                         - sum_out (ledger_of (p_id p) (db_transactions (db st))))
       \<and> map (\<lambda>p. (p_id p, quantity p)) (products st)
           = map (\<lambda>p. (p_id p, quantity p)) (db_products (db st))"
proof -
  have "ledger_consistent st"
    unfolding assms using consistent_initially by (rule run_preserves)
  then show ?thesis using consistentD(1,2) [of st] by (simp add: ledger_net_def)
qed

text \<open>The initial quantity of a created product is the one \<^verbatim>\<open>in\<close> row of its ledger, when
  it is positive; with a zero initial quantity there is no row.\<close>

lemma ledger_of_fresh:
  "\<forall>t\<in>set ts. product_id t < n \<Longrightarrow> ledger_of n ts = []"
  by (induction ts) (auto simp: ledger_of_def)

lemma initial_quantity_recorded:
  assumes inv: "ledger_consistent st"
    and u: "user st = Some uid" "configured st"
    and q: "q = num_or (pi_quantity productData) 0" "0 \<le> q"
    and st': "st' = fst (createProduct None None now productData st)"
  shows "\<exists>r. db_products (db st') = db_products (db st) @ [r] \<and> quantity r = q
           \<and> map (\<lambda>t. (ttype t, amount t)) (ledger_of (p_id r) (db_transactions (db st')))
               = (if 0 < q then [(TxIn, q)] else [])"
proof -
  have fresh: "ledger_of (db_next_id (db st)) (db_transactions (db st)) = []"
    using consistentD(5) [OF inv] by (intro ledger_of_fresh) blast
  show ?thesis
  proof (cases "0 < q")
    case True
    from createProduct_positive [OF u True [unfolded q(1)] st'] obtain r t where
      r: "p_id r = db_next_id (db st)" "quantity r = q"
      "db_products (db st') = db_products (db st) @ [r]"
      "db_transactions (db st') = db_transactions (db st) @ [t]"
      "product_id t = db_next_id (db st)" "ttype t = TxIn" "amount t = q"
      unfolding q(1) by blast
    have "ledger_of (p_id r) (db_transactions (db st')) = [t]"
      unfolding r(4) r(1) using fresh r(5) by (simp add: ledger_of_def)
    then show ?thesis using r True by auto
  next
    case False
    then have z: "num_or (pi_quantity productData) 0 = 0" using q by simp
    from createProduct_zero [OF u z st'] obtain r where
      r: "p_id r = db_next_id (db st)" "quantity r = 0"
      "db_products (db st') = db_products (db st) @ [r]"
      "db_transactions (db st') = db_transactions (db st)" by blast
    have "ledger_of (p_id r) (db_transactions (db st')) = []"
      unfolding r(4) r(1) by (rule fresh)
    then show ?thesis using r False z q(1) by auto
  qed
qed

end
